theory Spec2Isabelle
  imports Main "HOL-Library.Multiset" "HOL-Library.AList"
begin

section \<open>The adaptive concurrency budget of enrich\_company\_info.py\<close>

text \<open>
  The module keeps one shared dictionary
  \<^verbatim>\<open>_concurrency = {"max": 0, "active": 0}\<close>
  guarded by a condition variable. Python integers are unbounded, so both
  counters are \<^typ>\<open>int\<close>. The key \<^verbatim>\<open>"max"\<close> is the field \<open>max_conc\<close>
  (the name \<open>max\<close> is taken in HOL).
\<close>

record concurrency =
  max_conc :: int
  active :: int

text \<open>
  \<^verbatim>\<open>_acquire_slot\<close> waits on the condition while \<^verbatim>\<open>active >= max\<close> and then adds
  one to \<^verbatim>\<open>active\<close>. A call that has to wait takes no step: it is \<open>None\<close> here.
\<close>

definition acquire_slot :: "concurrency \<Rightarrow> concurrency option" where
  "acquire_slot c =
     (if active c \<ge> max_conc c then None
      else Some (c\<lparr>active := active c + 1\<rparr>))"

definition release_slot :: "concurrency \<Rightarrow> concurrency" where
  "release_slot c = c\<lparr>active := active c - 1\<rparr>"

definition on_429 :: "concurrency \<Rightarrow> concurrency" where
  "on_429 c = (if max_conc c > 1 then c\<lparr>max_conc := max_conc c - 1\<rparr> else c)"

section \<open>What one worker does: events\<close>

text \<open>
  A worker touches the shared budget and the outside world only through five kinds of
  action, in the order its code performs them: the two slot operations, the 429 report,
  \<^verbatim>\<open>time.sleep(delay)\<close> with its whole number of seconds, and
  \<^verbatim>\<open>urllib.request.urlopen\<close> (with the reading and decoding of the body).
  Messages printed to the terminal are left out.
\<close>

datatype event = Acquire | Release | On429 | Sleep nat | Urlopen

fun exec_event :: "event \<Rightarrow> concurrency \<Rightarrow> concurrency option" where
  "exec_event Acquire c = acquire_slot c"
| "exec_event Release c = Some (release_slot c)"
| "exec_event On429 c = Some (on_429 c)"
| "exec_event (Sleep n) c = Some c"
| "exec_event Urlopen c = Some c"

text \<open>
  The effect of a worker's events on the counters when nothing makes it wait: the
  increment of \<^verbatim>\<open>_acquire_slot\<close> is applied as soon as it is reached.
\<close>

fun apply_event :: "event \<Rightarrow> concurrency \<Rightarrow> concurrency" where
  "apply_event Acquire c = c\<lparr>active := active c + 1\<rparr>"
| "apply_event Release c = release_slot c"
| "apply_event On429 c = on_429 c"
| "apply_event (Sleep n) c = c"
| "apply_event Urlopen c = c"

definition apply_events :: "event list \<Rightarrow> concurrency \<Rightarrow> concurrency" where
  "apply_events es c = foldl (\<lambda>c e. apply_event e c) c es"

text \<open>
  A list of events uses the slot in a scoped way when, read from left to right with
  \<open>h\<close> telling whether the slot is held, every \<open>Acquire\<close> comes without the slot,
  every \<open>Release\<close> with it, and the list ends without it.
\<close>

fun scoped :: "bool \<Rightarrow> event list \<Rightarrow> bool" where
  "scoped h [] = (\<not> h)"
| "scoped h (Acquire # es) = (\<not> h \<and> scoped True es)"
| "scoped h (Release # es) = (h \<and> scoped False es)"
| "scoped h (On429 # es) = scoped h es"
| "scoped h (Sleep n # es) = scoped h es"
| "scoped h (Urlopen # es) = scoped h es"

definition sleeps :: "event list \<Rightarrow> nat list" where
  "sleeps es = concat (map (\<lambda>e. case e of Sleep n \<Rightarrow> [n] | _ \<Rightarrow> []) es)"

section \<open>The network as the code sees it\<close>

text \<open>
  A decoded JSON value, as \<^verbatim>\<open>json.loads\<close> returns it. Python's \<^verbatim>\<open>None\<close> is
  \<open>JNull\<close>. A number is kept as an integer: the code only ever asks whether a value
  is truthy. An object is the list of its items (keys distinct).
\<close>

datatype json =
    JNull
  | JBool bool
  | JNum int
  | JStr string
  | JArr "json list"
  | JObj "(string \<times> json) list"

fun truthy :: "json \<Rightarrow> bool" where
  "truthy JNull = False"
| "truthy (JBool b) = b"
| "truthy (JNum n) = (n \<noteq> 0)"
| "truthy (JStr s) = (s \<noteq> [])"
| "truthy (JArr xs) = (xs \<noteq> [])"
| "truthy (JObj kvs) = (kvs \<noteq> [])"

definition py_or :: "json \<Rightarrow> json \<Rightarrow> json" where
  "py_or a b = (if truthy a then a else b)"

definition dict_get :: "(string \<times> json) list \<Rightarrow> string \<Rightarrow> json" where
  "dict_get kvs k = (case map_of kvs k of None \<Rightarrow> JNull | Some v \<Rightarrow> v)"

text \<open>
  The exceptions that leave the functions below. \<open>JSONDecodeError\<close> comes from
  \<^verbatim>\<open>json.loads\<close>, \<open>AttributeError\<close> from \<^verbatim>\<open>.get\<close> or \<^verbatim>\<open>.strip\<close> on a value
  that has no such method, \<open>OtherException\<close> is any exception of the request that is
  not a \<^verbatim>\<open>urllib.error.URLError\<close> (a \<^verbatim>\<open>TimeoutError\<close> while the response is read, for
  one), and \<open>ValueError\<close> comes from \<^verbatim>\<open>ThreadPoolExecutor\<close> and \<^verbatim>\<open>csv.DictWriter\<close>.
\<close>

datatype exn = JSONDecodeError | AttributeError | OtherException | ValueError

text \<open>
  What one \<^verbatim>\<open>urlopen\<close> attempt can come to: a response with its status and body, an
  \<^verbatim>\<open>HTTPError\<close> with its code, another \<^verbatim>\<open>URLError\<close>, or an exception of another class.
\<close>

datatype body = Json json | NotJson

datatype outcome = Response nat body | HTTPError nat | URLError | Raised

datatype endpoint = CompanyInformation | InternationalCompanyInformation | SecuritiesInformation

text \<open>
  The network answers the \<open>k\<close>-th attempt (from 0) of the request for an endpoint and an
  identifier. Within one task every such request is made by one call only.
\<close>

type_synonym net = "endpoint \<Rightarrow> string \<Rightarrow> nat \<Rightarrow> outcome"

text \<open>A network that gives the same outcome to every attempt.\<close>

definition always :: "outcome \<Rightarrow> net" where
  "always out ep ident k = out"

section \<open>Strings\<close>

text \<open>
  A string is a list of 8-bit characters, read as the Unicode code points below 256
  (ASCII and Latin-1); text with a code point above 255 is outside the model. \<open>strip\<close>
  is \<^verbatim>\<open>str.strip()\<close>: these twelve code points are the ones below 256 for which
  \<^verbatim>\<open>str.isspace()\<close> holds.
\<close>

definition is_space :: "char \<Rightarrow> bool" where
  "is_space c = (c \<in> set [CHR 0x09, CHR 0x0A, CHR 0x0B, CHR 0x0C, CHR 0x0D,
                          CHR 0x1C, CHR 0x1D, CHR 0x1E, CHR 0x1F, CHR 0x20,
                          CHR 0x85, CHR 0xA0])"

definition strip :: "string \<Rightarrow> string" where
  "strip s = rev (dropWhile is_space (rev (dropWhile is_space s)))"

text \<open>
  \<^verbatim>\<open>str.upper()\<close>. Below 256 it maps the letters a to z and the Latin-1 letters
  U+00E0 to U+00FE (but not the division sign U+00F7) to the code point 32 below, the
  sharp s U+00DF to the two letters SS, and leaves every other code point as it is, apart
  from the micro sign U+00B5 and the y with diaeresis U+00FF: their upper case forms, U+039C
  and U+0178, lie above 255, and \<open>upper\<close> is \<open>None\<close> for a string that holds one of
  them. The only use of the result is as a key of a table whose keys are ASCII strings.
\<close>

definition lower_letters :: "char list" where
  "lower_letters = ''abcdefghijklmnopqrstuvwxyz'' @
       [
        CHR 0xE0, CHR 0xE1, CHR 0xE2, CHR 0xE3, CHR 0xE4, CHR 0xE5, CHR 0xE6, CHR 0xE7,
        CHR 0xE8, CHR 0xE9, CHR 0xEA, CHR 0xEB, CHR 0xEC, CHR 0xED, CHR 0xEE, CHR 0xEF,
        CHR 0xF0, CHR 0xF1, CHR 0xF2, CHR 0xF3, CHR 0xF4, CHR 0xF5, CHR 0xF6, CHR 0xF8,
        CHR 0xF9, CHR 0xFA, CHR 0xFB, CHR 0xFC, CHR 0xFD, CHR 0xFE
       ]"

definition upper_letters :: "char list" where
  "upper_letters = ''ABCDEFGHIJKLMNOPQRSTUVWXYZ'' @
       [
        CHR 0xC0, CHR 0xC1, CHR 0xC2, CHR 0xC3, CHR 0xC4, CHR 0xC5, CHR 0xC6, CHR 0xC7,
        CHR 0xC8, CHR 0xC9, CHR 0xCA, CHR 0xCB, CHR 0xCC, CHR 0xCD, CHR 0xCE, CHR 0xCF,
        CHR 0xD0, CHR 0xD1, CHR 0xD2, CHR 0xD3, CHR 0xD4, CHR 0xD5, CHR 0xD6, CHR 0xD8,
        CHR 0xD9, CHR 0xDA, CHR 0xDB, CHR 0xDC, CHR 0xDD, CHR 0xDE
       ]"

definition upper_char :: "char \<Rightarrow> string option" where
  "upper_char c =
     (if c = CHR 0xDF then Some ''SS''
      else if c = CHR 0xB5 \<or> c = CHR 0xFF then None
      else (case map_of (zip lower_letters upper_letters) c of
              None \<Rightarrow> Some [c]
            | Some u \<Rightarrow> Some [u]))"

fun upper :: "string \<Rightarrow> string option" where
  "upper [] = Some []"
| "upper (c # cs) =
     (case upper_char c of
        None \<Rightarrow> None
      | Some u \<Rightarrow> (case upper cs of None \<Rightarrow> None | Some us \<Rightarrow> Some (u @ us)))"

text \<open>\<open>rsplit_dot\<close> is \<^verbatim>\<open>s.rsplit(".", 1)\<close>.\<close>

definition rsplit_dot :: "string \<Rightarrow> string list" where
  "rsplit_dot s =
     (if CHR ''.'' \<in> set s
      then [rev (tl (dropWhile (\<lambda>c. c \<noteq> CHR ''.'') (rev s))),
            rev (takeWhile (\<lambda>c. c \<noteq> CHR ''.'') (rev s))]
      else [s])"

definition py_strip :: "json \<Rightarrow> exn + string" where
  "py_strip v = (case v of JStr s \<Rightarrow> Inr (strip s) | _ \<Rightarrow> Inl AttributeError)"

section \<open>The retrying fetchers\<close>

text \<open>
  \<^verbatim>\<open>fetch_info\<close>: the loop \<^verbatim>\<open>for attempt in range(4)\<close> is a recursion over the list of
  the attempt numbers still to run. Each round acquires a slot, opens the URL, and its
  \<^verbatim>\<open>finally\<close> clause releases the slot on every way out, also when an exception that
  no \<^verbatim>\<open>except\<close> clause names passes through. On a 429 the round reports it, sleeps
  \<^verbatim>\<open>2 ** attempt\<close> seconds and continues; the release of the \<^verbatim>\<open>finally\<close> clause comes
  after the sleep. A loop that runs out returns \<^verbatim>\<open>None\<close>.
\<close>

fun fetch_info_loop :: "(nat \<Rightarrow> outcome) \<Rightarrow> nat list \<Rightarrow> event list \<times> (exn + json)" where
  "fetch_info_loop reply [] = ([], Inr JNull)"
| "fetch_info_loop reply (attempt # rest) =
     (case reply attempt of
        Response status b \<Rightarrow>
          (if status \<noteq> 200 then ([Acquire, Urlopen, Release], Inr JNull)
           else (case b of
                   NotJson \<Rightarrow> ([Acquire, Urlopen, Release], Inl JSONDecodeError)
                 | Json data \<Rightarrow>
                     ([Acquire, Urlopen, Release],
                      Inr (case data of
                             JArr xs \<Rightarrow> (case xs of [] \<Rightarrow> JNull | x # _ \<Rightarrow> x)
                           | _ \<Rightarrow> data))))
      | HTTPError code \<Rightarrow>
          (if code = 429
           then (case fetch_info_loop reply rest of
                   (tr, r) \<Rightarrow> ([Acquire, Urlopen, On429, Sleep (2 ^ attempt), Release] @ tr, r))
           else ([Acquire, Urlopen, Release], Inr JNull))
      | URLError \<Rightarrow> ([Acquire, Urlopen, Release], Inr JNull)
      | Raised \<Rightarrow> ([Acquire, Urlopen, Release], Inl OtherException))"

definition path :: "bool \<Rightarrow> endpoint" where
  "path international =
     (if international then InternationalCompanyInformation else CompanyInformation)"

definition fetch_info :: "net \<Rightarrow> string \<Rightarrow> bool \<Rightarrow> event list \<times> (exn + json)" where
  "fetch_info net ticker international =
     fetch_info_loop (net (path international) ticker) [0..<4]"

text \<open>
  \<^verbatim>\<open>fetch_isin_fallback\<close>: the same loop on \<^verbatim>\<open>/securities-information\<close>; it returns a
  string, \<^verbatim>\<open>""\<close> where \<^verbatim>\<open>fetch_info\<close> returns \<^verbatim>\<open>None\<close>.
\<close>

fun fetch_isin_fallback_loop ::
  "(nat \<Rightarrow> outcome) \<Rightarrow> nat list \<Rightarrow> event list \<times> (exn + string)" where
  "fetch_isin_fallback_loop reply [] = ([], Inr [])"
| "fetch_isin_fallback_loop reply (attempt # rest) =
     (case reply attempt of
        Response status b \<Rightarrow>
          (if status \<noteq> 200 then ([Acquire, Urlopen, Release], Inr [])
           else (case b of
                   NotJson \<Rightarrow> ([Acquire, Urlopen, Release], Inl JSONDecodeError)
                 | Json data0 \<Rightarrow>
                     (let data = (case data0 of
                                    JArr xs \<Rightarrow> (case xs of [] \<Rightarrow> JObj [] | x # _ \<Rightarrow> x)
                                  | _ \<Rightarrow> data0)
                      in ([Acquire, Urlopen, Release],
                          (case data of
                             JObj kvs \<Rightarrow> py_strip (py_or (dict_get kvs ''isin_number'') (JStr []))
                           | _ \<Rightarrow> Inl AttributeError)))))
      | HTTPError code \<Rightarrow>
          (if code = 429
           then (case fetch_isin_fallback_loop reply rest of
                   (tr, r) \<Rightarrow> ([Acquire, Urlopen, On429, Sleep (2 ^ attempt), Release] @ tr, r))
           else ([Acquire, Urlopen, Release], Inr []))
      | URLError \<Rightarrow> ([Acquire, Urlopen, Release], Inr [])
      | Raised \<Rightarrow> ([Acquire, Urlopen, Release], Inl OtherException))"

definition fetch_isin_fallback :: "net \<Rightarrow> string \<Rightarrow> event list \<times> (exn + string)" where
  "fetch_isin_fallback net ticker =
     fetch_isin_fallback_loop (net SecuritiesInformation ticker) [0..<4]"

section \<open>The lookup tables\<close>

text \<open>
  \<^verbatim>\<open>INTL_EXCHANGE_MAP\<close>: full exchange names first, ticker suffixes after them, to
  (exchange, country, currency). \<^verbatim>\<open>DOMESTIC_EXCHANGE_MAP\<close> renames two exchange names.
\<close>

definition INTL_EXCHANGE_MAP :: "(string \<times> (string \<times> string \<times> string)) list" where
  "INTL_EXCHANGE_MAP =
    [
     (''London Stock Exchange'', (''LSE'', ''UK'', ''GBP'')),
     (''Toronto Stock Exchange'', (''TO'', ''Canada'', ''CAD'')),
     (''TSX Venture Exchange'', (''V'', ''Canada'', ''CAD'')),
     (''Frankfurt Stock Exchange'', (''F'', ''Germany'', ''EUR'')),
     (''XETRA'', (''XETRA'', ''Germany'', ''EUR'')),
     (''Euronext Paris'', (''PA'', ''France'', ''EUR'')),
     (''Euronext Amsterdam'', (''AS'', ''Netherlands'', ''EUR'')),
     (''Tokyo Stock Exchange'', (''T'', ''Japan'', ''JPY'')),
     (''Hong Kong Stock Exchange'', (''HK'', ''Hong Kong'', ''HKD'')),
     (''Singapore Exchange'', (''SI'', ''Singapore'', ''SGD'')),
     (''Indonesia Stock Exchange'', (''JK'', ''Indonesia'', ''IDR'')),
     (''Bursa Malaysia'', (''KLSE'', ''Malaysia'', ''MYR'')),
     (''Korea Exchange'', (''KO'', ''Korea'', ''KRW'')),
     (''Korea KOSDAQ'', (''KQ'', ''Korea'', ''KRW'')),
     (''B3 Brasil Bolsa Balcao'', (''SA'', ''Brazil'', ''BRL'')),
     (''Bolsa Mexicana de Valores'', (''MX'', ''Mexico'', ''MXN'')),
     (''National Stock Exchange India'', (''NS'', ''India'', ''INR'')),
     (''Bombay Stock Exchange'', (''BO'', ''India'', ''INR'')),
     (''Shanghai Stock Exchange'', (''SHG'', ''China'', ''CNY'')),
     (''Shenzhen Stock Exchange'', (''SHE'', ''China'', ''CNY'')),
     (''L'', (''LSE'', ''UK'', ''GBP'')),
     (''TO'', (''TO'', ''Canada'', ''CAD'')),
     (''V'', (''V'', ''Canada'', ''CAD'')),
     (''F'', (''F'', ''Germany'', ''EUR'')),
     (''DE'', (''XETRA'', ''Germany'', ''EUR'')),
     (''PA'', (''PA'', ''France'', ''EUR'')),
     (''AS'', (''AS'', ''Netherlands'', ''EUR'')),
     (''T'', (''T'', ''Japan'', ''JPY'')),
     (''HK'', (''HK'', ''Hong Kong'', ''HKD'')),
     (''SI'', (''SI'', ''Singapore'', ''SGD'')),
     (''JK'', (''JK'', ''Indonesia'', ''IDR'')),
     (''KL'', (''KLSE'', ''Malaysia'', ''MYR'')),
     (''KS'', (''KO'', ''Korea'', ''KRW'')),
     (''KQ'', (''KQ'', ''Korea'', ''KRW'')),
     (''SA'', (''SA'', ''Brazil'', ''BRL'')),
     (''MX'', (''MX'', ''Mexico'', ''MXN'')),
     (''NS'', (''NS'', ''India'', ''INR'')),
     (''BO'', (''BO'', ''India'', ''INR'')),
     (''SS'', (''SHG'', ''China'', ''CNY'')),
     (''SZ'', (''SHE'', ''China'', ''CNY''))
    ]"

definition DOMESTIC_EXCHANGE_MAP :: "(string \<times> string) list" where
  "DOMESTIC_EXCHANGE_MAP = [(''NAS'', ''NASDAQ''), (''OTC'', ''OTCMKTS'')]"

section \<open>Enriching one row\<close>

definition extract_isin_and_exchange :: "json \<Rightarrow> bool \<Rightarrow> exn + (string \<times> string)" where
  "extract_isin_and_exchange info international =
     (case info of
        JObj kvs \<Rightarrow>
          (let isin = (if international
                       then py_or (dict_get kvs ''isin_number'') (JStr [])
                       else py_or (py_or (dict_get kvs ''isin_number'') (dict_get kvs ''ISIN''))
                                  (JStr []));
               exchange = (if international
                           then py_or (dict_get kvs ''exchange'') (JStr [])
                           else py_or (py_or (dict_get kvs ''trading_exchange'')
                                             (dict_get kvs ''exchange''))
                                      (JStr []))
           in (case py_strip isin of
                 Inl e \<Rightarrow> Inl e
               | Inr i \<Rightarrow> (case py_strip exchange of
                             Inl e \<Rightarrow> Inl e
                           | Inr x \<Rightarrow> Inr (i, x))))
      | _ \<Rightarrow> Inl AttributeError)"

definition resolve_intl_exchange ::
  "string \<Rightarrow> string \<Rightarrow> (string \<times> string \<times> string) option" where
  "resolve_intl_exchange api_exchange ticker =
     (if api_exchange \<noteq> [] \<and> map_of INTL_EXCHANGE_MAP api_exchange \<noteq> None
      then map_of INTL_EXCHANGE_MAP api_exchange
      else if CHR ''.'' \<in> set ticker
      then (case upper (last (rsplit_dot ticker)) of
              None \<Rightarrow> None
            | Some suffix \<Rightarrow>
                (if map_of INTL_EXCHANGE_MAP suffix \<noteq> None
                 then map_of INTL_EXCHANGE_MAP suffix
                 else None))
      else None)"

text \<open>
  A row is the dictionary \<^verbatim>\<open>csv.DictReader\<close> makes of one line: from column names
  to cells, kept as the list of its items in insertion order (keys distinct). A cell is
  a string, or \<^verbatim>\<open>None\<close> where the line is shorter than the header. The surplus cells of
  a line longer than the header go under the key \<^verbatim>\<open>None\<close>; the code only ever asks of
  a key whether it is a field name, so that key is any key outside the field names here.

  \<^verbatim>\<open>row.get(k, "").strip()\<close> is \<open>cell\<close>: the default is used for a missing key only,
  and \<^verbatim>\<open>None\<close> has no \<^verbatim>\<open>strip\<close>. \<^verbatim>\<open>row[k] = v\<close> is \<open>set_field\<close>: the value of a
  key already there is replaced in place, a new key goes to the end.
\<close>

type_synonym row = "(string \<times> string option) list"

definition cell :: "row \<Rightarrow> string \<Rightarrow> exn + string" where
  "cell row k =
     (case map_of row k of
        None \<Rightarrow> Inr (strip [])
      | Some None \<Rightarrow> Inl AttributeError
      | Some (Some v) \<Rightarrow> Inr (strip v))"

definition set_field :: "row \<Rightarrow> string \<Rightarrow> string \<Rightarrow> row" where
  "set_field row k v = AList.update k (Some v) row"

datatype status = Enriched | NoData | Skipped

text \<open>
  The third component of what \<^verbatim>\<open>enrich_row\<close> returns: a dictionary from an
  unrecognized exchange value to tickers, kept as the list of its items.
\<close>

type_synonym diag = "(string \<times> string list) list"

type_synonym result = "row \<times> status \<times> diag"

text \<open>One call of a fetcher: its endpoint, the identifier sent, and the events of the call.\<close>

type_synonym call = "endpoint \<times> string \<times> event list"

text \<open>
  Lines 274 to 297 of \<^verbatim>\<open>enrich_row\<close>: the row is filled once the ISIN is known.
  \<open>ticker\<close> is the ticker written to the output, \<open>api_ticker\<close> the one sent to the API.
\<close>

definition fill_row ::
  "row \<Rightarrow> string \<Rightarrow> string \<Rightarrow> string \<Rightarrow> string \<Rightarrow> string \<Rightarrow> result" where
  "fill_row row0 original_exchange ticker api_ticker isin api_exchange =
     (let intl = (original_exchange = ''FD_INTL'');
          is_otc = (original_exchange = ''FD_OTC'');
          is_fd_us = (original_exchange = ''FD_US'');
          row = set_field (set_field row0 ''Isin'' isin) ''Ticker'' ticker
      in if intl then
           (case resolve_intl_exchange api_exchange api_ticker of
              Some (exchange, country, currency) \<Rightarrow>
                (set_field (set_field (set_field row ''Exchange'' exchange)
                                       ''Country'' country)
                            ''Currency'' currency,
                 Enriched, [])
            | None \<Rightarrow>
                (let raw = (if api_exchange \<noteq> [] then api_exchange else ''(none)'')
                 in (row, Enriched, [(raw, [ticker])])))
         else
           (let api_exchange2 = (case map_of DOMESTIC_EXCHANGE_MAP api_exchange of
                                   None \<Rightarrow> api_exchange | Some v \<Rightarrow> v);
                exchange = (if api_exchange2 \<noteq> [] then api_exchange2
                            else if is_otc then ''OTCMKTS''
                            else if is_fd_us then ''US'' else original_exchange)
            in (set_field (set_field (set_field row ''Exchange'' exchange)
                                      ''Currency'' ''USD'')
                           ''Country'' ''USA'',
                Enriched, [])))"

text \<open>
  \<^verbatim>\<open>enrich_row\<close>. Besides the returned triple (or the exception that leaves the
  function) the model gives the fetcher calls the task made, in order. The two cells are
  read where the code reads them: the ticker first, the exchange only when the ticker is
  not blank.
\<close>

definition enrich_row :: "row \<Rightarrow> net \<Rightarrow> call list \<times> (exn + result)" where
  "enrich_row row net =
     (case cell row ''Ticker'' of
        Inl e \<Rightarrow> ([], Inl e)
      | Inr ticker0 \<Rightarrow>
      if ticker0 = [] then ([], Inr (row, Skipped, []))
      else
       (case cell row ''Exchange'' of
          Inl e \<Rightarrow> ([], Inl e)
        | Inr original_exchange \<Rightarrow>
          (let intl = (original_exchange = ''FD_INTL'');
               is_otc = (original_exchange = ''FD_OTC'');
               is_fd_us = (original_exchange = ''FD_US'');
               api_ticker = ticker0;
               ticker = (if intl \<and> CHR ''.'' \<in> set ticker0
                         then hd (rsplit_dot ticker0) else ticker0)
           in (case fetch_info net api_ticker intl of
                 (tr1, r1) \<Rightarrow>
                  (let c1 = (path intl, api_ticker, tr1)
                   in (case r1 of
                         Inl e \<Rightarrow> ([c1], Inl e)
                       | Inr info \<Rightarrow>
                          (if truthy info then
                             (case extract_isin_and_exchange info intl of
                                Inl e \<Rightarrow> ([c1], Inl e)
                              | Inr (isin, api_exchange) \<Rightarrow>
                                 (if isin = [] then
                                    (case fetch_isin_fallback net api_ticker of
                                       (tr2, r2) \<Rightarrow>
                                        (let c2 = (SecuritiesInformation, api_ticker, tr2)
                                         in (case r2 of
                                               Inl e \<Rightarrow> ([c1, c2], Inl e)
                                             | Inr isin2 \<Rightarrow>
                                                ([c1, c2],
                                                 Inr (fill_row row original_exchange ticker
                                                        api_ticker isin2 api_exchange)))))
                                  else ([c1],
                                        Inr (fill_row row original_exchange ticker
                                               api_ticker isin api_exchange))))
                           else
                             (let row1 = (if is_otc then set_field row ''Exchange'' ''OTCMKTS''
                                          else if is_fd_us then set_field row ''Exchange'' ''US''
                                          else row)
                              in (case fetch_isin_fallback net api_ticker of
                                    (tr2, r2) \<Rightarrow>
                                     (let c2 = (SecuritiesInformation, api_ticker, tr2)
                                      in (case r2 of
                                            Inl e \<Rightarrow> ([c1, c2], Inl e)
                                          | Inr isin \<Rightarrow>
                                             (let row2 = (if isin \<noteq> []
                                                          then set_field row1 ''Isin'' isin
                                                          else row1)
                                              in ([c1, c2],
                                                  Inr (set_field row2 ''Ticker'' ticker,
                                                       NoData, []))))))))))))))"

definition events_of :: "call list \<Rightarrow> event list" where
  "events_of calls = concat (map (\<lambda>(ep, ident, tr). tr) calls)"

definition calls_to :: "endpoint \<Rightarrow> call list \<Rightarrow> call list" where
  "calls_to ep calls = filter (\<lambda>(ep', ident, tr). ep' = ep) calls"

section \<open>The dispatcher and aggregator of main\<close>

definition fieldnames :: "string list" where
  "fieldnames = [''Ticker'', ''Name'', ''Exchange'', ''Type'', ''Currency'', ''Country'', ''Isin'']"

text \<open>
  \<^verbatim>\<open>csv.DictWriter.writerow\<close> with the default \<^verbatim>\<open>extrasaction="raise"\<close> and
  \<^verbatim>\<open>restval=""\<close>: a key outside the field names raises \<^verbatim>\<open>ValueError\<close>; the line
  written holds the value of every field name, and the empty string for a missing key
  and for \<^verbatim>\<open>None\<close>.
\<close>

definition written_cell :: "row \<Rightarrow> string \<Rightarrow> string" where
  "written_cell row k = (case map_of row k of Some (Some v) \<Rightarrow> v | _ \<Rightarrow> [])"

definition writerow :: "row \<Rightarrow> exn + string list" where
  "writerow row =
     (if set (map fst row) \<subseteq> set fieldnames then Inr (map (written_cell row) fieldnames)
      else Inl ValueError)"

text \<open>\<^verbatim>\<open>rows[: args.limit]\<close>, where a negative limit counts from the end.\<close>

definition truncate_rows :: "int option \<Rightarrow> 'a list \<Rightarrow> 'a list" where
  "truncate_rows limit rows =
     (case limit of
        None \<Rightarrow> rows
      | Some k \<Rightarrow> (if 0 \<le> k then take (nat k) rows
                   else take (length rows - nat (- k)) rows))"

text \<open>
  \<^verbatim>\<open>all_unrecognized.setdefault(exch, []).extend(tickers)\<close> for every item of a
  task's dictionary; a new key goes to the end.
\<close>

fun merge_unrecognized :: "diag \<Rightarrow> diag \<Rightarrow> diag" where
  "merge_unrecognized acc [] = acc"
| "merge_unrecognized acc ((exch, tickers) # rest) =
     merge_unrecognized
       (case map_of acc exch of
          None \<Rightarrow> acc @ [(exch, tickers)]
        | Some old \<Rightarrow> map (\<lambda>(k, v). if k = exch then (k, v @ tickers) else (k, v)) acc)
       rest"

text \<open>
  The state of the loop of \<^verbatim>\<open>main\<close>: its two counters (the second is printed as
  "No data/skipped"), the merged diagnostics, and the data lines written to the output
  file so far.
\<close>

record summary =
  enriched :: nat
  skipped :: nat
  all_unrecognized :: diag
  written :: "string list list"

text \<open>
  The loop over \<^verbatim>\<open>as_completed(futures)\<close>. Each finished future either holds the
  triple of its task or the exception that left \<^verbatim>\<open>enrich_row\<close>;
  \<^verbatim>\<open>future.result()\<close> raises that exception again in \<^verbatim>\<open>main\<close>, which ends the loop
  (\<open>Some e\<close> in the second component).
\<close>

fun completed_loop :: "(exn + result) list \<Rightarrow> summary \<Rightarrow> summary \<times> exn option" where
  "completed_loop [] s = (s, None)"
| "completed_loop (f # fs) s =
     (case f of
        Inl e \<Rightarrow> (s, Some e)
      | Inr (result_row, status, unrecognized) \<Rightarrow>
         (let s1 = (if status = Enriched then s\<lparr>enriched := enriched s + 1\<rparr>
                    else s\<lparr>skipped := skipped s + 1\<rparr>);
              s2 = s1\<lparr>all_unrecognized := merge_unrecognized (all_unrecognized s1) unrecognized\<rparr>
          in (case writerow result_row of
                Inl e \<Rightarrow> (s2, Some e)
              | Inr line \<Rightarrow> completed_loop fs (s2\<lparr>written := written s2 @ [line]\<rparr>))))"

text \<open>
  \<^verbatim>\<open>main\<close> from the truncation of the rows on. \<open>nets i\<close> is the network as task \<open>i\<close>
  meets it, and \<open>order\<close> is the order in which the futures complete (task numbers from
  0). \<^verbatim>\<open>ThreadPoolExecutor\<close> raises \<^verbatim>\<open>ValueError\<close> for a worker count below 1,
  after the header line is written and before any task is submitted.
\<close>

definition main ::
  "int option \<Rightarrow> int \<Rightarrow> row list \<Rightarrow> (nat \<Rightarrow> net) \<Rightarrow> nat list \<Rightarrow> summary \<times> exn option" where
  "main limit workers input nets order =
     (let rows = truncate_rows limit input;
          init = \<lparr>enriched = 0, skipped = 0, all_unrecognized = [], written = []\<rparr>
      in if workers \<le> 0 then (init, Some ValueError)
         else completed_loop (map (\<lambda>i. snd (enrich_row (rows ! i) (nets i))) order) init)"

section \<open>Workers running side by side\<close>

text \<open>
  Every worker thread has the list of events it still has to perform. One step of the
  system is one event of one thread, applied to the shared counters under the lock; an
  \<open>Acquire\<close> that would have to wait is no step.
\<close>

inductive step :: "concurrency \<times> event list list \<Rightarrow> concurrency \<times> event list list \<Rightarrow> bool" where
  run: "i < length ts \<Longrightarrow> ts ! i = e # es \<Longrightarrow> exec_event e c = Some c'
        \<Longrightarrow> step (c, ts) (c', ts[i := es])"

text \<open>The events of a worker thread that runs the given tasks one after the other.\<close>

definition worker_events :: "(row \<times> net) list \<Rightarrow> event list" where
  "worker_events tasks = concat (map (\<lambda>(row, net). events_of (fst (enrich_row row net))) tasks)"

text \<open>
  \<^verbatim>\<open>main\<close> sets \<^verbatim>\<open>_concurrency["max"] = args.workers\<close> before the pool starts;
  \<^verbatim>\<open>active\<close> is 0.
\<close>

definition initial :: "int \<Rightarrow> (row \<times> net) list list \<Rightarrow> concurrency \<times> event list list" where
  "initial workers assignment =
     (\<lparr>max_conc = workers, active = 0\<rparr>, map worker_events assignment)"

section \<open>Predicates and scenarios of the statements\<close>

text \<open>
  Whether \<^verbatim>\<open>enrich_row\<close> goes on to call \<^verbatim>\<open>fetch_isin_fallback\<close> after
  \<^verbatim>\<open>fetch_info\<close> came to \<open>r\<close>: it does when the primary call returned nothing truthy
  (line 303), and when it returned a payload from which no ISIN could be read (line 270).
\<close>

definition needs_fallback :: "exn + json \<Rightarrow> bool \<Rightarrow> bool" where
  "needs_fallback r international =
     (case r of
        Inl e \<Rightarrow> False
      | Inr info \<Rightarrow>
          (if truthy info
           then (case extract_isin_and_exchange info international of
                   Inl e \<Rightarrow> False
                 | Inr (isin, api_exchange) \<Rightarrow> isin = [])
           else True))"

text \<open>The status a task ends with, if it ends with one.\<close>

definition status_of :: "exn + result \<Rightarrow> status option" where
  "status_of r = (case r of Inl e \<Rightarrow> None | Inr (row, st, d) \<Rightarrow> Some st)"

text \<open>
  The ticker \<^verbatim>\<open>enrich_row\<close> writes to the output, for the stripped ticker and
  exchange of the row: the part before the last dot for an \<^verbatim>\<open>FD_INTL\<close> row.
\<close>

definition output_ticker :: "string \<Rightarrow> string \<Rightarrow> string" where
  "output_ticker ticker0 original_exchange =
     (if original_exchange = ''FD_INTL'' \<and> CHR ''.'' \<in> set ticker0
      then hd (rsplit_dot ticker0) else ticker0)"

text \<open>Rows and networks of the scenarios.\<close>

definition row_of :: "string \<Rightarrow> string \<Rightarrow> row" where
  "row_of ticker exchange = [(''Ticker'', Some ticker), (''Exchange'', Some exchange)]"

definition answers :: "endpoint \<Rightarrow> outcome \<Rightarrow> outcome \<Rightarrow> net" where
  "answers ep out other ep' ident k = (if ep' = ep then out else other)"

text \<open>The same network for every task of a run.\<close>

definition every_task :: "net \<Rightarrow> nat \<Rightarrow> net" where
  "every_task n i = n"

text \<open>The number of the tasks \<open>0, \<dots>, n - 1\<close> of a run that end with a given status.\<close>

definition tasks_with :: "status \<Rightarrow> row list \<Rightarrow> (nat \<Rightarrow> net) \<Rightarrow> nat" where
  "tasks_with st rows nets =
     length (filter (\<lambda>i. status_of (snd (enrich_row (rows ! i) (nets i))) = Some st)
               [0..<length rows])"

text \<open>The number of threads that hold a slot: those whose remaining events are scoped
  from inside.\<close>

definition holders :: "event list list \<Rightarrow> int" where
  "holders ts = sum_list (map (\<lambda>t. if scoped True t then 1 else 0) ts)"

text \<open>Two workers with one task each: the first meets a 429 on every attempt, the
  second a \<open>URLError\<close>.\<close>

definition two_workers :: "(row \<times> net) list list" where
  "two_workers = [[(row_of ''A'' ''FD_US'', always (HTTPError 429))],
                  [(row_of ''B'' ''FD_US'', always URLError)]]"

text \<open>What holds of the shared counters and the threads in every reachable state, for
  the worker count \<open>W\<close>.\<close>

definition budget_inv :: "int \<Rightarrow> concurrency \<times> event list list \<Rightarrow> bool" where
  "budget_inv W s = (case s of (c, ts) \<Rightarrow>
      (\<forall>t \<in> set ts. scoped True t \<or> scoped False t) \<and> active c = holders ts
      \<and> 1 \<le> max_conc c \<and> max_conc c \<le> W \<and> active c \<le> W)"

section \<open>Budget monotonicity\<close>

lemma on_429_iter_max:
  "1 \<le> max_conc c \<Longrightarrow> max_conc ((on_429 ^^ n) c) = max 1 (max_conc c - int n)"
  by (induction n) (auto simp: on_429_def)

lemma on_429_iter_active: "active ((on_429 ^^ n) c) = active c"
  by (induction n) (auto simp: on_429_def)

text \<open>
  C3. Any number \<open>n\<close> of \<^verbatim>\<open>_on_429\<close> calls, started with a limit of at least 1
  (the worker count), leaves the limit at least 1 and never above its value
  after fewer calls; one call that sees a limit above 1 takes exactly 1 off, and
  one call that sees the limit 1 leaves the budget as it is.
\<close>

theorem on_429_monotone_floor:
  "1 \<le> max_conc c \<Longrightarrow>
     1 \<le> max_conc ((on_429 ^^ n) c)
   \<and> max_conc ((on_429 ^^ Suc n) c) \<le> max_conc ((on_429 ^^ n) c)
   \<and> max_conc ((on_429 ^^ n) c) \<le> max_conc c
   \<and> (max_conc c > 1 \<longrightarrow> max_conc (on_429 c) = max_conc c - 1)
   \<and> (max_conc c = 1 \<longrightarrow> on_429 c = c)
   \<and> active (on_429 c) = active c"
  by (simp add: on_429_iter_max del: funpow.simps) (auto simp: on_429_def)

theorem on_429_monotone_floor_witness:
  "1 \<le> max_conc \<lparr>max_conc = 3, active = 2\<rparr>
   \<and> max_conc ((on_429 ^^ 5) \<lparr>max_conc = 3, active = 2\<rparr>) = 1
   \<and> max_conc (on_429 \<lparr>max_conc = 3, active = 2\<rparr>) = 2
   \<and> on_429 \<lparr>max_conc = 1, active = 1\<rparr> = \<lparr>max_conc = 1, active = 1\<rparr>"
  using on_429_monotone_floor [of "\<lparr>max_conc = 3, active = 2\<rparr>" 5]
        on_429_monotone_floor [of "\<lparr>max_conc = 1, active = 1\<rparr>" 0]
  by (simp add: on_429_iter_max on_429_def del: funpow.simps)

section \<open>The events of the two fetchers\<close>

lemma fetch_info_loop_events:
  "fst (fetch_info_loop reply (k # rest)) =
     (if reply k = HTTPError 429
      then [Acquire, Urlopen, On429, Sleep (2 ^ k), Release] @ fst (fetch_info_loop reply rest)
      else [Acquire, Urlopen, Release])"
  by (simp split: outcome.splits body.splits prod.splits)

lemma fetch_isin_fallback_loop_events:
  "fst (fetch_isin_fallback_loop reply (k # rest)) =
     (if reply k = HTTPError 429
      then [Acquire, Urlopen, On429, Sleep (2 ^ k), Release]
           @ fst (fetch_isin_fallback_loop reply rest)
      else [Acquire, Urlopen, Release])"
  by (simp add: Let_def split: outcome.splits body.splits prod.splits)

lemma same_events: "fst (fetch_isin_fallback_loop reply ks) = fst (fetch_info_loop reply ks)"
proof (induction ks)
  case Nil
  show ?case by simp
next
  case (Cons k ks)
  show ?case
    unfolding fetch_info_loop_events fetch_isin_fallback_loop_events Cons.IH ..
qed

lemma scoped_fetch_info_loop: "scoped False (fst (fetch_info_loop reply ks))"
proof (induction ks)
  case Nil
  show ?case by simp
next
  case (Cons k ks)
  then show ?case unfolding fetch_info_loop_events by simp
qed

lemma apply_events_append: "apply_events (xs @ ys) c = apply_events ys (apply_events xs c)"
  by (simp add: apply_events_def)

lemma active_on_429: "active (on_429 c) = active c"
  by (simp add: on_429_def)

lemma active_fetch_info_loop:
  "active (apply_events (fst (fetch_info_loop reply ks)) c) = active c"
proof (induction ks arbitrary: c)
  case Nil
  show ?case by (simp add: apply_events_def)
next
  case (Cons k ks)
  show ?case
  proof (cases "reply k = HTTPError 429")
    case True
    have "active (apply_events [Acquire, Urlopen, On429, Sleep (2 ^ k), Release] c) = active c"
      by (simp add: apply_events_def release_slot_def active_on_429)
    moreover have "fst (fetch_info_loop reply (k # ks)) =
        [Acquire, Urlopen, On429, Sleep (2 ^ k), Release] @ fst (fetch_info_loop reply ks)"
      using True by (simp only: fetch_info_loop_events refl if_True)
    ultimately show ?thesis
      by (simp only: apply_events_append Cons.IH)
  next
    case False
    then show ?thesis
      unfolding fetch_info_loop_events by (simp add: apply_events_def release_slot_def)
  qed
qed

lemma count_fetch_info_loop:
  "count_list (fst (fetch_info_loop reply ks)) Acquire
   = count_list (fst (fetch_info_loop reply ks)) Release"
proof (induction ks)
  case Nil
  show ?case by simp
next
  case (Cons k ks)
  then show ?case unfolding fetch_info_loop_events by simp
qed

lemma upt4: "[0..<4] = [0, 1, 2, 3]"
  by (simp add: upt_rec)

text \<open>
  C6. In both fetchers one round of the loop is \<open>Acquire\<close>, \<open>Urlopen\<close>, \<open>Release\<close>
  on every way out that is not a 429 (a returned response, another HTTP error, a
  \<open>URLError\<close>, an exception that passes through), and \<open>Acquire\<close>, \<open>Urlopen\<close>,
  \<open>On429\<close>, the sleep, \<open>Release\<close> on a 429, followed by the next round, which starts
  with its own \<open>Acquire\<close>. So the events of a whole call are scoped, hold as many
  \<open>Acquire\<close> as \<open>Release\<close>, and leave \<open>active\<close> as they found it.
\<close>

theorem slot_released_on_every_exit:
  "fst (fetch_info_loop reply (k # rest)) =
     (if reply k = HTTPError 429
      then [Acquire, Urlopen, On429, Sleep (2 ^ k), Release] @ fst (fetch_info_loop reply rest)
      else [Acquire, Urlopen, Release])
   \<and> fst (fetch_isin_fallback_loop reply (k # rest)) =
     (if reply k = HTTPError 429
      then [Acquire, Urlopen, On429, Sleep (2 ^ k), Release]
           @ fst (fetch_isin_fallback_loop reply rest)
      else [Acquire, Urlopen, Release])
   \<and> scoped False (fst (fetch_info net ticker international))
   \<and> scoped False (fst (fetch_isin_fallback net ticker))
   \<and> count_list (fst (fetch_info net ticker international)) Acquire
       = count_list (fst (fetch_info net ticker international)) Release
   \<and> count_list (fst (fetch_isin_fallback net ticker)) Acquire
       = count_list (fst (fetch_isin_fallback net ticker)) Release
   \<and> active (apply_events (fst (fetch_info net ticker international)) c) = active c
   \<and> active (apply_events (fst (fetch_isin_fallback net ticker)) c) = active c"
  unfolding fetch_info_def fetch_isin_fallback_def same_events
  using fetch_info_loop_events [of reply k rest]
        scoped_fetch_info_loop count_fetch_info_loop active_fetch_info_loop
  by simp

text \<open>
  C5. With a 429 on each of the four attempts, \<^verbatim>\<open>fetch_info\<close> sleeps 1, 2, 4 and then
  8 seconds: the fourth attempt is followed by a sleep of \<^verbatim>\<open>2 ** 3\<close> seconds before the
  slot is released and the loop ends, although no attempt comes after it.
\<close>

theorem fetch_info_sleeps_after_last_attempt:
  "fst (fetch_info (always (HTTPError 429)) ''AAA'' False) =
     [Acquire, Urlopen, On429, Sleep 1, Release,
      Acquire, Urlopen, On429, Sleep 2, Release,
      Acquire, Urlopen, On429, Sleep 4, Release,
      Acquire, Urlopen, On429, Sleep 8, Release]
   \<and> sleeps (fst (fetch_info (always (HTTPError 429)) ''AAA'' False)) = [1, 2, 4, 8]
   \<and> snd (fetch_info (always (HTTPError 429)) ''AAA'' False) = Inr JNull"
  by (simp add: fetch_info_def always_def sleeps_def upt4)

section \<open>The branches of enrich\_row\<close>

lemma enrich_row_skipped:
  "cell row ''Ticker'' = Inr [] \<Longrightarrow> enrich_row row net = ([], Inr (row, Skipped, []))"
  by (simp add: enrich_row_def)

lemma enrich_row_ticker_raises:
  "cell row ''Ticker'' = Inl e \<Longrightarrow> enrich_row row net = ([], Inl e)"
  by (simp add: enrich_row_def)

lemma enrich_row_exchange_raises:
  "cell row ''Ticker'' = Inr t0 \<Longrightarrow> t0 \<noteq> [] \<Longrightarrow> cell row ''Exchange'' = Inl e
   \<Longrightarrow> enrich_row row net = ([], Inl e)"
  by (simp add: enrich_row_def)

lemma enrich_row_unfold:
  assumes "cell row ''Ticker'' = Inr t0" "t0 \<noteq> []"
    and "cell row ''Exchange'' = Inr ox"
    and "fetch_info net t0 (ox = ''FD_INTL'') = (tr1, r1)"
    and "fetch_isin_fallback net t0 = (tr2, r2)"
  shows "enrich_row row net =
    (case r1 of
       Inl e \<Rightarrow> ([(path (ox = ''FD_INTL''), t0, tr1)], Inl e)
     | Inr info \<Rightarrow>
        (if truthy info then
           (case extract_isin_and_exchange info (ox = ''FD_INTL'') of
              Inl e \<Rightarrow> ([(path (ox = ''FD_INTL''), t0, tr1)], Inl e)
            | Inr (isin, api_exchange) \<Rightarrow>
               (if isin = [] then
                  (case r2 of
                     Inl e \<Rightarrow> ([(path (ox = ''FD_INTL''), t0, tr1), (SecuritiesInformation, t0, tr2)], Inl e)
                   | Inr isin2 \<Rightarrow>
                      ([(path (ox = ''FD_INTL''), t0, tr1), (SecuritiesInformation, t0, tr2)],
                       Inr (fill_row row ox (output_ticker t0 ox) t0 isin2 api_exchange)))
                else ([(path (ox = ''FD_INTL''), t0, tr1)],
                      Inr (fill_row row ox (output_ticker t0 ox) t0 isin api_exchange))))
         else
           (case r2 of
              Inl e \<Rightarrow> ([(path (ox = ''FD_INTL''), t0, tr1), (SecuritiesInformation, t0, tr2)], Inl e)
            | Inr isin \<Rightarrow>
               ([(path (ox = ''FD_INTL''), t0, tr1), (SecuritiesInformation, t0, tr2)],
                Inr (set_field
                       (if isin \<noteq> []
                        then set_field (if ox = ''FD_OTC'' then set_field row ''Exchange'' ''OTCMKTS''
                                        else if ox = ''FD_US'' then set_field row ''Exchange'' ''US''
                                        else row) ''Isin'' isin
                        else (if ox = ''FD_OTC'' then set_field row ''Exchange'' ''OTCMKTS''
                              else if ox = ''FD_US'' then set_field row ''Exchange'' ''US''
                              else row))
                       ''Ticker'' (output_ticker t0 ox),
                     NoData, [])))))"
  using assms(2)
  by (simp only: enrich_row_def output_ticker_def Let_def assms(1) assms(3) assms(4) assms(5)
        if_False prod.case sum.case)

lemmas enrich_row_cases =
  enrich_row_unfold [OF _ _ _ surjective_pairing surjective_pairing]

lemma enrich_row_calls:
  assumes "cell row ''Ticker'' = Inr t0" "t0 \<noteq> []"
    and "cell row ''Exchange'' = Inr ox"
  shows "fst (enrich_row row net) =
     (path (ox = ''FD_INTL''), t0, fst (fetch_info net t0 (ox = ''FD_INTL'')))
     # (if needs_fallback (snd (fetch_info net t0 (ox = ''FD_INTL''))) (ox = ''FD_INTL'')
        then [(SecuritiesInformation, t0, fst (fetch_isin_fallback net t0))] else [])"
  unfolding enrich_row_cases [OF assms] needs_fallback_def
  by (simp split: sum.splits prod.splits)

lemma enrich_row_no_data:
  assumes "cell row ''Ticker'' = Inr t0" "t0 \<noteq> []"
    and "cell row ''Exchange'' = Inr ox"
    and "snd (fetch_info net t0 (ox = ''FD_INTL'')) = Inr info" "\<not> truthy info"
    and "snd (fetch_isin_fallback net t0) = Inr isin"
  shows "\<exists>row'. snd (enrich_row row net) = Inr (row', NoData, [])"
  using assms(4-6) by (simp add: enrich_row_cases [OF assms(1-3)])

lemma enrich_row_enriched:
  assumes "cell row ''Ticker'' = Inr t0" "t0 \<noteq> []"
    and "cell row ''Exchange'' = Inr ox"
    and "snd (fetch_info net t0 (ox = ''FD_INTL'')) = Inr info" "truthy info"
    and "extract_isin_and_exchange info (ox = ''FD_INTL'') = Inr (isin, api_exchange)"
    and "isin = [] \<longrightarrow> snd (fetch_isin_fallback net t0) = Inr isin2"
  shows "snd (enrich_row row net) =
           Inr (fill_row row ox (output_ticker t0 ox) t0 (if isin = [] then isin2 else isin)
                  api_exchange)"
  using assms(4-7) by (simp add: enrich_row_cases [OF assms(1-3)])

lemma map_of_set_field:
  "map_of (set_field row k v) k' = (if k' = k then Some (Some v) else map_of row k')"
  by (simp add: set_field_def update_conv')

lemma path_not_fallback: "path intl \<noteq> SecuritiesInformation"
  by (simp add: path_def)

lemma cell_row_of:
  "cell (row_of ticker exchange) ''Ticker'' = Inr (strip ticker)"
  "cell (row_of ticker exchange) ''Exchange'' = Inr (strip exchange)"
  by (simp_all add: cell_def row_of_def)

lemma all_429_events:
  assumes "\<forall>k<4. reply k = HTTPError 429"
  shows "fetch_info_loop reply [0..<4] =
     ([Acquire, Urlopen, On429, Sleep 1, Release,
       Acquire, Urlopen, On429, Sleep 2, Release,
       Acquire, Urlopen, On429, Sleep 4, Release,
       Acquire, Urlopen, On429, Sleep 8, Release], Inr JNull)"
proof -
  have "reply 0 = HTTPError 429" "reply 1 = HTTPError 429" "reply 2 = HTTPError 429"
       "reply 3 = HTTPError 429"
    using assms by simp_all
  then show ?thesis by (simp add: upt4)
qed

section \<open>A task whose primary request is always rate limited\<close>

lemma four_reports_limit:
  "1 \<le> max_conc c \<Longrightarrow>
   max_conc (apply_events
     [Acquire, Urlopen, On429, Sleep 1, Release,
      Acquire, Urlopen, On429, Sleep 2, Release,
      Acquire, Urlopen, On429, Sleep 4, Release,
      Acquire, Urlopen, On429, Sleep 8, Release] c) = max 1 (max_conc c - 4)"
  by (simp add: apply_events_def release_slot_def on_429_def)

lemma all_429_then_fallback:
  assumes "cell row ''Ticker'' = Inr t0" and "t0 \<noteq> []"
    and "cell row ''Exchange'' = Inr ox"
    and "\<forall>k<4. net (path (ox = ''FD_INTL'')) t0 k = HTTPError 429"
  shows "fst (enrich_row row net) =
           [(path (ox = ''FD_INTL''), t0,
             [Acquire, Urlopen, On429, Sleep 1, Release,
              Acquire, Urlopen, On429, Sleep 2, Release,
              Acquire, Urlopen, On429, Sleep 4, Release,
              Acquire, Urlopen, On429, Sleep 8, Release]),
            (SecuritiesInformation, t0, fst (fetch_isin_fallback net t0))]"
    and "snd (fetch_isin_fallback net t0) = Inr isin
         \<Longrightarrow> status_of (snd (enrich_row row net)) = Some NoData"
    and "snd (fetch_isin_fallback net t0) = Inl e \<Longrightarrow> snd (enrich_row row net) = Inl e"
proof -
  note fi = all_429_events [OF assms(4), folded fetch_info_def]
  have "fst (enrich_row row net) =
           [(path (ox = ''FD_INTL''), t0, fst (fetch_info net t0 (ox = ''FD_INTL''))),
            (SecuritiesInformation, t0, fst (fetch_isin_fallback net t0))]"
    unfolding enrich_row_calls [OF assms(1-3)] by (simp add: fi needs_fallback_def)
  then show "fst (enrich_row row net) =
           [(path (ox = ''FD_INTL''), t0,
             [Acquire, Urlopen, On429, Sleep 1, Release,
              Acquire, Urlopen, On429, Sleep 2, Release,
              Acquire, Urlopen, On429, Sleep 4, Release,
              Acquire, Urlopen, On429, Sleep 8, Release]),
            (SecuritiesInformation, t0, fst (fetch_isin_fallback net t0))]"
    unfolding fi fst_conv .
  show "status_of (snd (enrich_row row net)) = Some NoData"
    if "snd (fetch_isin_fallback net t0) = Inr isin"
    using enrich_row_no_data [OF assms(1-3) _ _ that, of JNull]
    by (auto simp: fi status_of_def)
  show "snd (enrich_row row net) = Inl e" if "snd (fetch_isin_fallback net t0) = Inl e"
    using that by (simp add: enrich_row_cases [OF assms(1-3)] fi)
qed

text \<open>
  C4. A task with the ticker \<^verbatim>\<open>AAA\<close> whose primary request gets a 429 on each of the
  four attempts, and whose fallback request then gets a response with status 200 and a
  body that is not JSON: \<^verbatim>\<open>fetch_info\<close> makes its 4 attempts and 4 reports, the
  fallback endpoint is called once, and \<^verbatim>\<open>JSONDecodeError\<close> leaves \<^verbatim>\<open>enrich_row\<close>: the
  task ends with no status. With a 429 on every attempt of the fallback too, the task
  ends with \<^verbatim>\<open>no_data\<close>.
\<close>

theorem all_429_then_fallback_raises:
  "enrich_row (row_of ''AAA'' ''FD_US'')
     (answers CompanyInformation (HTTPError 429) (Response 200 NotJson))
   = ([(CompanyInformation, ''AAA'',
        [Acquire, Urlopen, On429, Sleep 1, Release,
         Acquire, Urlopen, On429, Sleep 2, Release,
         Acquire, Urlopen, On429, Sleep 4, Release,
         Acquire, Urlopen, On429, Sleep 8, Release]),
       (SecuritiesInformation, ''AAA'', [Acquire, Urlopen, Release])],
      Inl JSONDecodeError)
   \<and> status_of (snd (enrich_row (row_of ''AAA'' ''FD_US'')
        (answers CompanyInformation (HTTPError 429) (Response 200 NotJson)))) = None
   \<and> status_of (snd (enrich_row (row_of ''AAA'' ''FD_US'') (always (HTTPError 429))))
       = Some NoData"
  by (simp add: enrich_row_def cell_row_of strip_def is_space_def answers_def always_def
        fetch_info_def fetch_isin_fallback_def path_def upt4 status_of_def Let_def)

section \<open>When the fallback endpoint is queried\<close>

lemma calls_to_fallback:
  "calls_to SecuritiesInformation (fst (enrich_row row net)) =
     (case cell row ''Ticker'' of
        Inl e \<Rightarrow> []
      | Inr t0 \<Rightarrow>
          (if t0 = [] then []
           else (case cell row ''Exchange'' of
                   Inl e \<Rightarrow> []
                 | Inr ox \<Rightarrow>
                     (if needs_fallback (snd (fetch_info net t0 (ox = ''FD_INTL'')))
                           (ox = ''FD_INTL'')
                      then [(SecuritiesInformation, t0, fst (fetch_isin_fallback net t0))]
                      else []))))"
proof (cases "cell row ''Ticker''")
  case (Inl e)
  then show ?thesis by (simp add: enrich_row_ticker_raises calls_to_def)
next
  case t: (Inr t0)
  show ?thesis
  proof (cases "t0 = []")
    case True
    with t show ?thesis by (simp add: enrich_row_skipped calls_to_def)
  next
    case False
    show ?thesis
    proof (cases "cell row ''Exchange''")
      case (Inl e)
      with t False show ?thesis
        by (simp add: enrich_row_exchange_raises calls_to_def)
    next
      case (Inr ox)
      show ?thesis
        unfolding enrich_row_calls [OF t False Inr]
        using False by (simp add: t Inr calls_to_def path_not_fallback)
    qed
  qed
qed

text \<open>
  C7, as the code has it. \<^verbatim>\<open>enrich_row\<close> calls \<^verbatim>\<open>fetch_isin_fallback\<close> exactly when
  the ticker and the exchange of the row can be read, the ticker is not blank, and the
  primary call either returned nothing truthy (it failed, ran out of attempts or brought
  an empty payload) or returned a payload without an ISIN; it never calls it twice. The
  call is a run of the fallback's own loop, whose events for given outcomes are those of
  the primary loop for the same outcomes: four attempts at most, a report and a sleep of
  \<open>2 ^ k\<close> seconds after a 429.
\<close>

theorem fallback_called_at_most_once:
  "calls_to SecuritiesInformation (fst (enrich_row row net)) =
     (case cell row ''Ticker'' of
        Inl e \<Rightarrow> []
      | Inr t0 \<Rightarrow>
          (if t0 = [] then []
           else (case cell row ''Exchange'' of
                   Inl e \<Rightarrow> []
                 | Inr ox \<Rightarrow>
                     (if needs_fallback (snd (fetch_info net t0 (ox = ''FD_INTL'')))
                           (ox = ''FD_INTL'')
                      then [(SecuritiesInformation, t0, fst (fetch_isin_fallback net t0))]
                      else []))))
   \<and> length (calls_to SecuritiesInformation (fst (enrich_row row net))) \<le> 1
   \<and> fst (fetch_isin_fallback_loop reply ks) = fst (fetch_info_loop reply ks)"
  unfolding calls_to_fallback same_events by (simp split: sum.split)

text \<open>
  C7 as stated fails: with HTTP 500 on the primary request, \<^verbatim>\<open>fetch_info\<close> returns
  \<^verbatim>\<open>None\<close>, the primary call did not succeed, and the fallback endpoint is queried
  all the same (line 303).
\<close>

theorem fallback_after_failed_primary:
  "snd (fetch_info (always (HTTPError 500)) ''AAA'' False) = Inr JNull
   \<and> \<not> truthy JNull
   \<and> calls_to SecuritiesInformation
        (fst (enrich_row (row_of ''AAA'' ''FD_US'') (always (HTTPError 500))))
      = [(SecuritiesInformation, ''AAA'', [Acquire, Urlopen, Release])]"
  by (simp add: calls_to_fallback needs_fallback_def fetch_info_def fetch_isin_fallback_def
        always_def upt4 cell_row_of strip_def is_space_def)

section \<open>International rows\<close>

text \<open>
  C9. A row whose ticker is \<^verbatim>\<open>SHEL.L\<close> and whose exchange is \<^verbatim>\<open>FD_INTL\<close>, with a
  primary payload holding the ISIN \<^verbatim>\<open>GB00BP6MXD84\<close> and the exchange
  \<^verbatim>\<open>London Stock Exchange\<close>: the only call goes to the international endpoint with
  the identifier \<^verbatim>\<open>SHEL.L\<close>, and the task returns the row with Isin, Ticker
  \<^verbatim>\<open>SHEL\<close>, Exchange \<^verbatim>\<open>LSE\<close>, Country \<^verbatim>\<open>UK\<close> and Currency \<^verbatim>\<open>GBP\<close> set, the
  status \<^verbatim>\<open>enriched\<close> and no diagnostic.
\<close>

theorem scenario_shel:
  assumes "cell row ''Ticker'' = Inr ''SHEL.L''"
    and "cell row ''Exchange'' = Inr ''FD_INTL''"
    and "snd (fetch_info net ''SHEL.L'' True) = Inr (JObj kvs)"
    and "dict_get kvs ''isin_number'' = JStr ''GB00BP6MXD84''"
    and "dict_get kvs ''exchange'' = JStr ''London Stock Exchange''"
  shows "enrich_row row net =
           ([(InternationalCompanyInformation, ''SHEL.L'', fst (fetch_info net ''SHEL.L'' True))],
            Inr (set_field (set_field (set_field (set_field (set_field row
                   ''Isin'' ''GB00BP6MXD84'') ''Ticker'' ''SHEL'') ''Exchange'' ''LSE'')
                   ''Country'' ''UK'') ''Currency'' ''GBP'',
                 Enriched, []))"
proof -
  have kvs: "kvs \<noteq> []" using assms(4) by (auto simp: dict_get_def)
  have ex: "extract_isin_and_exchange (JObj kvs) True
              = Inr (''GB00BP6MXD84'', ''London Stock Exchange'')"
    by (simp add: extract_isin_and_exchange_def assms(4,5) py_or_def py_strip_def strip_def
          is_space_def)
  have ot: "output_ticker ''SHEL.L'' ''FD_INTL'' = ''SHEL''"
    by (simp add: output_ticker_def rsplit_dot_def)
  have rs: "resolve_intl_exchange ''London Stock Exchange'' ''SHEL.L''
              = Some (''LSE'', ''UK'', ''GBP'')"
    by (simp add: resolve_intl_exchange_def INTL_EXCHANGE_MAP_def)
  have fr: "fill_row row ''FD_INTL'' ''SHEL'' ''SHEL.L'' ''GB00BP6MXD84'' ''London Stock Exchange''
      = (set_field (set_field (set_field (set_field (set_field row
                   ''Isin'' ''GB00BP6MXD84'') ''Ticker'' ''SHEL'') ''Exchange'' ''LSE'')
                   ''Country'' ''UK'') ''Currency'' ''GBP'', Enriched, [])"
    by (simp add: fill_row_def rs)
  show ?thesis
    using enrich_row_cases [OF assms(1) _ assms(2), of net] kvs
    by (simp add: assms(3) ex ot fr path_def)
qed

theorem scenario_shel_witness:
  "enrich_row (row_of ''SHEL.L'' ''FD_INTL'')
     (answers InternationalCompanyInformation
        (Response 200 (Json (JObj [(''isin_number'', JStr ''GB00BP6MXD84''),
                                   (''exchange'', JStr ''London Stock Exchange'')])))
        Raised)
   = ([(InternationalCompanyInformation, ''SHEL.L'', [Acquire, Urlopen, Release])],
      Inr ([(''Ticker'', Some ''SHEL''), (''Exchange'', Some ''LSE''),
            (''Isin'', Some ''GB00BP6MXD84''), (''Country'', Some ''UK''),
            (''Currency'', Some ''GBP'')], Enriched, []))
   \<and> writerow [(''Ticker'', Some ''SHEL''), (''Exchange'', Some ''LSE''),
            (''Isin'', Some ''GB00BP6MXD84''), (''Country'', Some ''UK''),
            (''Currency'', Some ''GBP'')]
     = Inr [''SHEL'', [], ''LSE'', [], ''GBP'', ''UK'', ''GB00BP6MXD84'']"
proof -
  let ?net = "answers InternationalCompanyInformation
        (Response 200 (Json (JObj [(''isin_number'', JStr ''GB00BP6MXD84''),
                                   (''exchange'', JStr ''London Stock Exchange'')])))
        Raised"
  have 1: "cell (row_of ''SHEL.L'' ''FD_INTL'') ''Ticker'' = Inr ''SHEL.L''"
    by (simp add: cell_row_of strip_def is_space_def)
  have 2: "cell (row_of ''SHEL.L'' ''FD_INTL'') ''Exchange'' = Inr ''FD_INTL''"
    by (simp add: cell_row_of strip_def is_space_def)
  have 3: "fetch_info ?net ''SHEL.L'' True = ([Acquire, Urlopen, Release],
      Inr (JObj [(''isin_number'', JStr ''GB00BP6MXD84''),
                 (''exchange'', JStr ''London Stock Exchange'')]))"
    by (simp add: fetch_info_def answers_def path_def upt4)
  have 4: "dict_get [(''isin_number'', JStr ''GB00BP6MXD84''),
                 (''exchange'', JStr ''London Stock Exchange'')] ''isin_number''
             = JStr ''GB00BP6MXD84''"
    by (simp add: dict_get_def)
  have 5: "dict_get [(''isin_number'', JStr ''GB00BP6MXD84''),
                 (''exchange'', JStr ''London Stock Exchange'')] ''exchange''
             = JStr ''London Stock Exchange''"
    by (simp add: dict_get_def)
  show ?thesis
    using scenario_shel [of "row_of ''SHEL.L'' ''FD_INTL''" ?net, OF 1 2 _ 4 5]
    by (simp add: 3 row_of_def set_field_def writerow_def fieldnames_def written_cell_def)
qed

text \<open>
  C8, as the code has it. An \<^verbatim>\<open>FD_INTL\<close> row with a ticker that is not blank, a truthy
  primary payload from which ISIN and exchange are read, an exchange that
  \<^verbatim>\<open>resolve_intl_exchange\<close> resolves neither by its name nor by the ticker suffix, and,
  when the payload has no ISIN, a fallback call that returns: the task returns with the
  status \<^verbatim>\<open>enriched\<close>; only Isin and Ticker of the row are set, so the cells Exchange,
  Country and Currency are as they were; and the diagnostic maps \<^verbatim>\<open>raw\<close>, which is the
  exchange value of the payload, or the placeholder \<^verbatim>\<open>(none)\<close> when that value is
  empty, to the output ticker.
\<close>

theorem unresolved_exchange_keeps_marker:
  assumes "cell row ''Ticker'' = Inr t0" and "t0 \<noteq> []"
    and "cell row ''Exchange'' = Inr ''FD_INTL''"
    and "snd (fetch_info net t0 True) = Inr info" and "truthy info"
    and "extract_isin_and_exchange info True = Inr (isin, api_exchange)"
    and "resolve_intl_exchange api_exchange t0 = None"
    and "isin = [] \<longrightarrow> snd (fetch_isin_fallback net t0) = Inr isin2"
  shows "snd (enrich_row row net) =
           Inr (set_field (set_field row ''Isin'' (if isin = [] then isin2 else isin))
                  ''Ticker'' (output_ticker t0 ''FD_INTL''),
                Enriched,
                [(if api_exchange \<noteq> [] then api_exchange else ''(none)'',
                  [output_ticker t0 ''FD_INTL''])])
       \<and> map_of (set_field (set_field row ''Isin'' (if isin = [] then isin2 else isin))
                  ''Ticker'' (output_ticker t0 ''FD_INTL'')) ''Exchange''
           = map_of row ''Exchange''
       \<and> map_of (set_field (set_field row ''Isin'' (if isin = [] then isin2 else isin))
                  ''Ticker'' (output_ticker t0 ''FD_INTL'')) ''Country''
           = map_of row ''Country''
       \<and> map_of (set_field (set_field row ''Isin'' (if isin = [] then isin2 else isin))
                  ''Ticker'' (output_ticker t0 ''FD_INTL'')) ''Currency''
           = map_of row ''Currency''"
proof -
  have "snd (enrich_row row net) =
          Inr (fill_row row ''FD_INTL'' (output_ticker t0 ''FD_INTL'') t0
                 (if isin = [] then isin2 else isin) api_exchange)"
    using enrich_row_enriched [OF assms(1-3), of net info isin api_exchange isin2]
          assms(4-6) assms(8)
    by simp
  moreover have "fill_row row ''FD_INTL'' (output_ticker t0 ''FD_INTL'') t0
                   (if isin = [] then isin2 else isin) api_exchange =
     (set_field (set_field row ''Isin'' (if isin = [] then isin2 else isin))
        ''Ticker'' (output_ticker t0 ''FD_INTL''),
      Enriched,
      [(if api_exchange \<noteq> [] then api_exchange else ''(none)'',
        [output_ticker t0 ''FD_INTL''])])"
    by (simp add: fill_row_def assms(7))
  ultimately show ?thesis
    by (simp add: map_of_set_field)
qed

theorem unresolved_exchange_keeps_marker_witness:
  "snd (enrich_row (row_of ''XYZ'' ''FD_INTL'')
         (answers InternationalCompanyInformation
            (Response 200 (Json (JObj [(''isin_number'', JStr []),
                                       (''exchange'', JStr ''Unknown Exchange'')])))
            (Response 200 (Json (JObj [(''isin_number'', JStr ''US1234567890'')])))))
   = Inr ([(''Ticker'', Some ''XYZ''), (''Exchange'', Some ''FD_INTL''),
           (''Isin'', Some ''US1234567890'')],
          Enriched, [(''Unknown Exchange'', [''XYZ''])])"
proof -
  let ?info = "JObj [(''isin_number'', JStr []), (''exchange'', JStr ''Unknown Exchange'')]"
  let ?net = "answers InternationalCompanyInformation (Response 200 (Json ?info))
            (Response 200 (Json (JObj [(''isin_number'', JStr ''US1234567890'')])))"
  let ?row = "row_of ''XYZ'' ''FD_INTL''"
  have 1: "cell ?row ''Ticker'' = Inr ''XYZ''"
    by (simp add: cell_row_of strip_def is_space_def)
  have 2: "''XYZ'' \<noteq> []" by simp
  have 3: "cell ?row ''Exchange'' = Inr ''FD_INTL''"
    by (simp add: cell_row_of strip_def is_space_def)
  have 4: "snd (fetch_info ?net ''XYZ'' True) = Inr ?info"
    by (simp add: fetch_info_def answers_def path_def upt4)
  have 5: "truthy ?info" by simp
  have 6: "extract_isin_and_exchange ?info True = Inr ([], ''Unknown Exchange'')"
    by (simp add: extract_isin_and_exchange_def dict_get_def py_or_def py_strip_def
          strip_def is_space_def)
  have 7: "resolve_intl_exchange ''Unknown Exchange'' ''XYZ'' = None"
    by (simp add: resolve_intl_exchange_def INTL_EXCHANGE_MAP_def)
  have 8: "[] = [] \<longrightarrow> snd (fetch_isin_fallback ?net ''XYZ'') = Inr ''US1234567890''"
    by (simp add: fetch_isin_fallback_def answers_def upt4 dict_get_def py_or_def py_strip_def
          strip_def is_space_def)
  have 9: "output_ticker ''XYZ'' ''FD_INTL'' = ''XYZ''"
    by (simp add: output_ticker_def)
  from unresolved_exchange_keeps_marker
         [of ?row "''XYZ''" ?net ?info "[]" "''Unknown Exchange''" "''US1234567890''",
          OF 1 2 3 4 5 6 7 8]
  show ?thesis
    unfolding 9 by (simp add: row_of_def set_field_def)
qed

text \<open>
  C8 as stated fails: for a payload with an ISIN and an empty exchange value, and a
  ticker without a suffix, nothing resolves, and the diagnostic maps the placeholder
  \<^verbatim>\<open>(none)\<close> to the ticker, not the raw exchange value, which is the empty string.
\<close>

theorem unresolved_empty_exchange_is_placeholder:
  "extract_isin_and_exchange
     (JObj [(''isin_number'', JStr ''US1234567890''), (''exchange'', JStr [])]) True
     = Inr (''US1234567890'', [])
   \<and> resolve_intl_exchange [] ''XYZ'' = None
   \<and> snd (enrich_row (row_of ''XYZ'' ''FD_INTL'')
         (always (Response 200
            (Json (JObj [(''isin_number'', JStr ''US1234567890''), (''exchange'', JStr [])])))))
     = Inr ([(''Ticker'', Some ''XYZ''), (''Exchange'', Some ''FD_INTL''),
             (''Isin'', Some ''US1234567890'')],
            Enriched, [(''(none)'', [''XYZ''])])
   \<and> ''(none)'' \<noteq> []"
  by (simp add: enrich_row_def cell_def strip_def is_space_def always_def
        fetch_info_def path_def upt4 Let_def extract_isin_and_exchange_def dict_get_def
        py_or_def py_strip_def fill_row_def resolve_intl_exchange_def row_of_def set_field_def)

section \<open>The run as a whole\<close>

lemma keys_set_field: "fst ` set (set_field row k v) = insert k (fst ` set row)"
  using dom_update [of k "Some v" row] by (simp add: set_field_def)

lemma keys_fill_row:
  assumes "fst ` set row \<subseteq> set fieldnames"
  shows "fst ` set (fst (fill_row row ox t t0 isin x)) \<subseteq> set fieldnames"
  using assms
  by (simp add: fill_row_def Let_def keys_set_field fieldnames_def split: option.splits)

lemma keys_enrich_row_aux:
  assumes "fst ` set row \<subseteq> set fieldnames"
  shows "case snd (enrich_row row net) of Inl e \<Rightarrow> True
         | Inr res \<Rightarrow> fst ` set (fst res) \<subseteq> set fieldnames"
proof (cases "cell row ''Ticker''")
  case (Inl e)
  then show ?thesis by (simp add: enrich_row_ticker_raises)
next
  case t: (Inr t0)
  show ?thesis
  proof (cases "t0 = []")
    case True
    with t assms show ?thesis by (simp add: enrich_row_skipped)
  next
    case False
    show ?thesis
    proof (cases "cell row ''Exchange''")
      case (Inl e)
      with t False show ?thesis by (simp add: enrich_row_exchange_raises)
    next
      case x: (Inr ox)
      note un = enrich_row_cases [OF t False x, of net]
      have f: "''Exchange'' \<in> set fieldnames" "''Isin'' \<in> set fieldnames"
        "''Ticker'' \<in> set fieldnames"
        by (simp_all add: fieldnames_def)
      show ?thesis
      proof (cases "snd (fetch_info net t0 (ox = ''FD_INTL''))")
        case (Inl e)
        then show ?thesis by (simp add: un)
      next
        case (Inr info)
        show ?thesis
        proof (cases "snd (fetch_isin_fallback net t0)")
          case fb: (Inl e)
          show ?thesis
          proof (cases "truthy info")
            case False
            then show ?thesis by (simp add: un Inr fb)
          next
            case True
            show ?thesis
            proof (cases "extract_isin_and_exchange info (ox = ''FD_INTL'')")
              case (Inl e')
              then show ?thesis by (simp add: un Inr True)
            next
              case ex: (Inr p)
              obtain isin y where p: "p = (isin, y)" by (cases p)
              show ?thesis
                by (simp add: un Inr True ex p fb keys_fill_row [OF assms])
            qed
          qed
        next
          case fb: (Inr isin2)
          show ?thesis
          proof (cases "truthy info")
            case False
            then show ?thesis by (simp add: un Inr fb keys_set_field f assms)
          next
            case True
            show ?thesis
            proof (cases "extract_isin_and_exchange info (ox = ''FD_INTL'')")
              case (Inl e')
              then show ?thesis by (simp add: un Inr True)
            next
              case ex: (Inr p)
              obtain isin y where p: "p = (isin, y)" by (cases p)
              show ?thesis
                by (simp add: un Inr True ex p fb keys_fill_row [OF assms])
            qed
          qed
        qed
      qed
    qed
  qed
qed

lemma keys_enrich_row:
  assumes "fst ` set row \<subseteq> set fieldnames"
    and "snd (enrich_row row net) = Inr (row', st, d)"
  shows "fst ` set row' \<subseteq> set fieldnames"
  using keys_enrich_row_aux [OF assms(1), of net] assms(2) by simp

lemma completed_loop_all:
  assumes "\<forall>f \<in> set fs. \<exists>row st d. f = Inr (row, st, d) \<and> fst ` set row \<subseteq> set fieldnames"
  shows "snd (completed_loop fs s) = None"
  using assms
proof (induction fs arbitrary: s)
  case Nil
  show ?case by simp
next
  case (Cons f fs)
  then obtain row st d where f: "f = Inr (row, st, d)"
    and keys: "fst ` set row \<subseteq> set fieldnames"
    by auto
  from Cons.prems have rest: "\<forall>f \<in> set fs. \<exists>row st d. f = Inr (row, st, d)
      \<and> fst ` set row \<subseteq> set fieldnames"
    by simp
  note ih = Cons.IH [OF rest]
  show ?case
    by (simp add: f keys writerow_def Let_def ih)
qed

lemma completed_loop_counts:
  assumes "snd (completed_loop fs s) = None"
  shows "length (written (fst (completed_loop fs s))) = length (written s) + length fs
       \<and> enriched (fst (completed_loop fs s))
           = enriched s + length (filter (\<lambda>f. status_of f = Some Enriched) fs)
       \<and> skipped (fst (completed_loop fs s))
           = skipped s + length (filter (\<lambda>f. status_of f = Some NoData) fs)
                       + length (filter (\<lambda>f. status_of f = Some Skipped) fs)"
  using assms
proof (induction fs arbitrary: s)
  case Nil
  show ?case by simp
next
  case (Cons f fs)
  show ?case
  proof (cases f)
    case (Inl e)
    with Cons.prems show ?thesis by simp
  next
    case (Inr res)
    obtain row st d where res: "res = (row, st, d)" by (cases res)
    show ?thesis
    proof (cases "writerow row")
      case (Inl e)
      with Cons.prems Inr res show ?thesis by (simp add: Let_def)
    next
      case w: (Inr line)
      define s2 where "s2 = (if st = Enriched then s\<lparr>enriched := enriched s + 1\<rparr>
                             else s\<lparr>skipped := skipped s + 1\<rparr>)
        \<lparr>all_unrecognized := merge_unrecognized (all_unrecognized s) d,
         written := written s @ [line]\<rparr>"
      have step: "completed_loop (f # fs) s = completed_loop fs s2"
        by (simp add: Inr res w Let_def s2_def)
      with Cons.prems have "snd (completed_loop fs s2) = None" by simp
      from Cons.IH [OF this] show ?thesis
        unfolding step by (cases st) (simp_all add: s2_def Inr res status_of_def)
    qed
  qed
qed

lemma length_filter_mset:
  assumes "mset xs = mset ys"
  shows "length (filter P xs) = length (filter P ys)"
proof -
  have "mset (filter P xs) = mset (filter P ys)"
    using assms by (simp only: mset_filter)
  then show ?thesis by (rule mset_eq_length)
qed

lemma main_completes:
  assumes "1 \<le> workers"
    and "mset order = mset [0..<length (truncate_rows limit input)]"
    and "\<forall>row \<in> set (truncate_rows limit input). set (map fst row) \<subseteq> set fieldnames"
    and "\<forall>i < length (truncate_rows limit input).
           \<exists>res. snd (enrich_row (truncate_rows limit input ! i) (nets i)) = Inr res"
  shows "snd (main limit workers input nets order) = None
       \<and> length (written (fst (main limit workers input nets order)))
           = length (truncate_rows limit input)"
proof -
  define rows where "rows = truncate_rows limit input"
  define g where "g = (\<lambda>i. snd (enrich_row (rows ! i) (nets i)))"
  define init where "init = \<lparr>enriched = 0, skipped = 0, all_unrecognized = [], written = []\<rparr>"
  have m: "main limit workers input nets order = completed_loop (map g order) init"
    using assms(1) by (simp add: main_def Let_def rows_def g_def init_def)
  have so: "set order = {0..<length rows}"
    using assms(2) [folded rows_def] by (metis mset_eq_setD set_upt)
  have ok: "\<forall>f \<in> set (map g order). \<exists>row st d. f = Inr (row, st, d)
              \<and> fst ` set row \<subseteq> set fieldnames"
  proof
    fix f assume "f \<in> set (map g order)"
    then obtain i where i: "i < length rows" and f: "f = g i"
      using so by auto
    from assms(4) [folded rows_def] i
    obtain row' st d where r: "g i = Inr (row', st, d)"
      unfolding g_def by (metis prod_cases3)
    from i assms(3) have "fst ` set (rows ! i) \<subseteq> set fieldnames"
      by (simp add: rows_def)
    from keys_enrich_row [OF this r [unfolded g_def]] r f
    show "\<exists>row st d. f = Inr (row, st, d) \<and> fst ` set row \<subseteq> set fieldnames"
      by simp
  qed
  have len: "length order = length rows"
    using assms(2) [folded rows_def] by (metis length_upt mset_eq_length minus_nat.diff_0)
  have none: "snd (completed_loop (map g order) init) = None"
    by (rule completed_loop_all [OF ok])
  from completed_loop_counts [OF none] none
  show ?thesis
    unfolding m rows_def [symmetric] by (simp add: len init_def)
qed

text \<open>
  C10, as the code has it. In every run that completes, that is, whose loop in
  \<^verbatim>\<open>main\<close> ends without an exception after every future has come up once: the counter
  \<^verbatim>\<open>enriched\<close> is the number of tasks with the status \<^verbatim>\<open>enriched\<close>, and the only
  other counter, \<^verbatim>\<open>skipped\<close> (printed as "No data/skipped"), is the number of tasks
  with the status \<^verbatim>\<open>no_data\<close> plus the number with the status \<^verbatim>\<open>skipped\<close>; one line is
  written for every task. A row with a blank ticker is returned as it is with the status
  \<^verbatim>\<open>skipped\<close> and no fetcher call.
\<close>

theorem summary_counts:
  assumes "snd (main limit workers input nets order) = None"
    and "mset order = mset [0..<length (truncate_rows limit input)]"
  shows "enriched (fst (main limit workers input nets order))
           = tasks_with Enriched (truncate_rows limit input) nets
       \<and> skipped (fst (main limit workers input nets order))
           = tasks_with NoData (truncate_rows limit input) nets
             + tasks_with Skipped (truncate_rows limit input) nets
       \<and> length (written (fst (main limit workers input nets order)))
           = length (truncate_rows limit input)
       \<and> (\<forall>row net. cell row ''Ticker'' = Inr [] \<longrightarrow>
             enrich_row row net = ([], Inr (row, Skipped, [])))"
proof -
  define rows where "rows = truncate_rows limit input"
  define g where "g = (\<lambda>i. snd (enrich_row (rows ! i) (nets i)))"
  define init where "init = \<lparr>enriched = 0, skipped = 0, all_unrecognized = [], written = []\<rparr>"
  have w: "\<not> workers \<le> 0"
    using assms(1) by (auto simp: main_def Let_def)
  then have m: "main limit workers input nets order = completed_loop (map g order) init"
    by (simp add: main_def Let_def rows_def g_def init_def)
  have len: "length order = length rows"
    using assms(2) [folded rows_def] by (metis length_upt mset_eq_length minus_nat.diff_0)
  have cnt: "\<And>st. length (filter (\<lambda>f. status_of f = Some st) (map g order))
               = tasks_with st rows nets"
    using length_filter_mset [OF assms(2) [folded rows_def]]
    by (simp add: tasks_with_def filter_map comp_def g_def)
  from assms(1) have "snd (completed_loop (map g order) init) = None"
    unfolding m .
  from completed_loop_counts [OF this, unfolded cnt]
  show ?thesis
    unfolding m rows_def [symmetric] by (simp add: len init_def enrich_row_skipped)
qed

theorem summary_counts_witness:
  "snd (main None 2 [row_of [] ''FD_US'', row_of ''AAA'' ''FD_US'']
          (every_task (always URLError)) [1, 0]) = None
   \<and> enriched (fst (main None 2 [row_of [] ''FD_US'', row_of ''AAA'' ''FD_US'']
          (every_task (always URLError)) [1, 0])) = 0
   \<and> skipped (fst (main None 2 [row_of [] ''FD_US'', row_of ''AAA'' ''FD_US'']
          (every_task (always URLError)) [1, 0])) = 2
   \<and> tasks_with NoData [row_of [] ''FD_US'', row_of ''AAA'' ''FD_US'']
          (every_task (always URLError)) = 1
   \<and> tasks_with Skipped [row_of [] ''FD_US'', row_of ''AAA'' ''FD_US'']
          (every_task (always URLError)) = 1
   \<and> enrich_row (row_of [] ''FD_US'') (always URLError)
       = ([], Inr (row_of [] ''FD_US'', Skipped, []))"
proof -
  have 0: "truncate_rows None [row_of [] ''FD_US'', row_of ''AAA'' ''FD_US'']
           = [row_of [] ''FD_US'', row_of ''AAA'' ''FD_US'']"
    by (simp add: truncate_rows_def)
  have 1: "snd (main None 2 [row_of [] ''FD_US'', row_of ''AAA'' ''FD_US'']
          (every_task (always URLError)) [1, 0]) = None"
    by (simp add: main_def truncate_rows_def enrich_row_def cell_def row_of_def strip_def
          is_space_def every_task_def always_def fetch_info_def fetch_isin_fallback_def upt4
          Let_def set_field_def writerow_def fieldnames_def)
  have 2: "mset [1, 0::nat]
         = mset [0..<length (truncate_rows None [row_of [] ''FD_US'', row_of ''AAA'' ''FD_US''])]"
    by (simp add: truncate_rows_def upt_rec [of 0] upt_rec [of 1])
  have 3: "tasks_with NoData [row_of [] ''FD_US'', row_of ''AAA'' ''FD_US'']
             (every_task (always URLError)) = 1"
          "tasks_with Skipped [row_of [] ''FD_US'', row_of ''AAA'' ''FD_US'']
             (every_task (always URLError)) = 1"
          "tasks_with Enriched [row_of [] ''FD_US'', row_of ''AAA'' ''FD_US'']
             (every_task (always URLError)) = 0"
    by (simp_all add: tasks_with_def upt_rec [of 0] upt_rec [of 1] status_of_def enrich_row_def
          cell_def row_of_def strip_def is_space_def every_task_def always_def
          fetch_info_def fetch_isin_fallback_def upt4 Let_def set_field_def)
  have 4: "cell (row_of [] ''FD_US'') ''Ticker'' = Inr []"
    by (simp add: cell_row_of strip_def)
  from summary_counts [OF 1 2] 1 4 show ?thesis
    unfolding 0 3 by simp
qed

text \<open>
  C10 as stated fails: in a run over one row with a blank ticker no task ends with
  \<^verbatim>\<open>no_data\<close>, and the counter the summary prints for "No data" holds 1.
\<close>

theorem skipped_counter_counts_blank_rows:
  "skipped (fst (main None 1 [row_of [] ''FD_US''] (every_task (always URLError)) [0])) = 1
   \<and> tasks_with NoData [row_of [] ''FD_US''] (every_task (always URLError)) = 0
   \<and> tasks_with Skipped [row_of [] ''FD_US''] (every_task (always URLError)) = 1"
  by (simp add: main_def truncate_rows_def tasks_with_def status_of_def enrich_row_def
        row_of_def cell_def strip_def writerow_def fieldnames_def)

text \<open>
  C1. A run over one row, ticker \<^verbatim>\<open>AAA\<close>: the primary request gets HTTP 500 and the
  fallback request a response with status 200 whose body is not JSON (first run), or an
  exception that is not a \<^verbatim>\<open>URLError\<close>, such as a timeout while the body is read
  (second run); or the primary request itself gets the body that is not JSON (third
  run). The exception leaves \<^verbatim>\<open>enrich_row\<close>, \<^verbatim>\<open>future.result()\<close> raises it in
  \<^verbatim>\<open>main\<close>, and the output holds no row for the one task.
\<close>

theorem run_aborted_by_uncaught_exception:
  "main None 1 [row_of ''AAA'' ''FD_US'']
     (every_task (answers CompanyInformation (HTTPError 500) (Response 200 NotJson))) [0]
   = (\<lparr>enriched = 0, skipped = 0, all_unrecognized = [], written = []\<rparr>,
      Some JSONDecodeError)
   \<and> main None 1 [row_of ''AAA'' ''FD_US'']
     (every_task (answers CompanyInformation (HTTPError 500) Raised)) [0]
   = (\<lparr>enriched = 0, skipped = 0, all_unrecognized = [], written = []\<rparr>,
      Some OtherException)
   \<and> main None 1 [row_of ''AAA'' ''FD_US'']
     (every_task (always (Response 200 NotJson))) [0]
   = (\<lparr>enriched = 0, skipped = 0, all_unrecognized = [], written = []\<rparr>,
      Some JSONDecodeError)
   \<and> length (truncate_rows None [row_of ''AAA'' ''FD_US'']) = 1"
  by (simp add: main_def truncate_rows_def enrich_row_def
        row_of_def cell_def strip_def is_space_def every_task_def always_def answers_def
        fetch_info_def fetch_isin_fallback_def upt4 Let_def set_field_def path_def)

section \<open>Admission under interleaving\<close>

lemma scoped_unique: "scoped h es \<Longrightarrow> scoped h' es \<Longrightarrow> h = h'"
  by (induction h es arbitrary: h' rule: scoped.induct) auto

lemma scoped_append: "scoped h xs \<Longrightarrow> scoped False ys \<Longrightarrow> scoped h (xs @ ys)"
  by (induction h xs rule: scoped.induct) auto

lemma scoped_enrich_row: "scoped False (events_of (fst (enrich_row row net)))"
proof (cases "cell row ''Ticker''")
  case (Inl e)
  then show ?thesis by (simp add: enrich_row_ticker_raises events_of_def)
next
  case t: (Inr t0)
  show ?thesis
  proof (cases "t0 = []")
    case True
    with t show ?thesis by (simp add: enrich_row_skipped events_of_def)
  next
    case False
    show ?thesis
    proof (cases "cell row ''Exchange''")
      case (Inl e)
      with t False show ?thesis by (simp add: enrich_row_exchange_raises events_of_def)
    next
      case (Inr ox)
      have a: "scoped False (fst (fetch_info net t intl))" for t intl
        unfolding fetch_info_def by (rule scoped_fetch_info_loop)
      have b: "scoped False (fst (fetch_isin_fallback net t))" for t
        unfolding fetch_isin_fallback_def same_events by (rule scoped_fetch_info_loop)
      show ?thesis
        unfolding enrich_row_calls [OF t False Inr]
        by (simp add: events_of_def a b scoped_append)
    qed
  qed
qed

lemma scoped_worker_events: "scoped False (worker_events tasks)"
proof (induction tasks)
  case Nil
  show ?case by (simp add: worker_events_def)
next
  case (Cons t tasks)
  obtain row net where t: "t = (row, net)" by (cases t)
  from Cons show ?case
    by (simp add: worker_events_def t scoped_append scoped_enrich_row)
qed

lemma sum_list_update_int:
  "i < length xs \<Longrightarrow> sum_list (xs[i := y]) = sum_list xs - xs ! i + (y::int)"
proof (induction xs arbitrary: i)
  case Nil
  then show ?case by simp
next
  case (Cons x xs)
  then show ?case by (cases i) simp_all
qed

lemma holders_update:
  assumes "i < length ts"
  shows "holders (ts[i := es]) =
           holders ts - (if scoped True (ts ! i) then 1 else 0) + (if scoped True es then 1 else 0)"
  using assms by (simp add: holders_def map_update sum_list_update_int)

lemma holders_nonneg: "0 \<le> holders ts"
  unfolding holders_def by (induction ts) simp_all

lemma inv_initial: "1 \<le> W \<Longrightarrow> budget_inv W (initial W assignment)"
proof -
  have "holders (map worker_events assignment) = 0"
    unfolding holders_def
    by (induction assignment) (use scoped_unique scoped_worker_events in auto)
  moreover assume "1 \<le> W"
  ultimately show ?thesis
    by (auto simp: budget_inv_def initial_def scoped_worker_events)
qed

lemma inv_step:
  assumes "step s s'" and "budget_inv W s"
  shows "budget_inv W s'"
  using assms
proof (cases rule: step.cases)
  case (run i ts e es c c')
  from assms(2) run(1) have sc: "\<forall>t \<in> set ts. scoped True t \<or> scoped False t"
    and ac: "active c = holders ts" and lim: "1 \<le> max_conc c" "max_conc c \<le> W"
    and aw: "active c \<le> W"
    by (simp_all add: budget_inv_def)
  from sc run(3,4) have here: "scoped True (e # es) \<or> scoped False (e # es)"
    by (metis nth_mem)
  have excl: "\<not> (scoped True es \<and> scoped False es)"
    using scoped_unique by blast
  note hu = holders_update [OF run(3), of es, unfolded run(4)]
  have sc': "\<forall>t \<in> set (ts[i := es]). scoped True t \<or> scoped False t"
  proof
    fix t assume "t \<in> set (ts[i := es])"
    then have "t = es \<or> t \<in> set ts" by (metis insert_iff set_update_subset_insert subsetD)
    moreover have "scoped True es \<or> scoped False es" using here by (cases e) auto
    ultimately show "scoped True t \<or> scoped False t" using sc by blast
  qed
  show ?thesis
  proof (cases e)
    case Acquire
    with here run(5) excl ac lim aw show ?thesis
      unfolding run(2) budget_inv_def
      by (auto simp: sc' hu acquire_slot_def split: if_splits)
  next
    case Release
    with here run(5) excl ac lim aw show ?thesis
      unfolding run(2) budget_inv_def
      by (auto simp: sc' hu release_slot_def)
  next
    case On429
    with here run(5) excl ac lim aw show ?thesis
      unfolding run(2) budget_inv_def
      by (auto simp: sc' hu on_429_def)
  next
    case (Sleep n)
    with here run(5) excl ac lim aw show ?thesis
      unfolding run(2) budget_inv_def
      by (auto simp: sc' hu)
  next
    case Urlopen
    with here run(5) excl ac lim aw show ?thesis
      unfolding run(2) budget_inv_def
      by (auto simp: sc' hu)
  qed
qed

lemma inv_reachable:
  assumes "1 \<le> W" and "step\<^sup>*\<^sup>* (initial W assignment) s"
  shows "budget_inv W s"
  using assms(2)
  by (induction rule: rtranclp_induct) (auto intro: inv_initial [OF assms(1)] inv_step)

text \<open>
  C2, as the code has it. From \<^verbatim>\<open>active = 0\<close> and a limit equal to a worker count of
  at least 1, in every state that the threads can reach by interleaving the events of
  their tasks: \<open>0 \<le> active\<close>, \<open>active\<close> is the number of threads that hold a slot
  and is at most the worker count, the limit is between 1 and the worker count, and an
  \<^verbatim>\<open>_acquire_slot\<close> that is let in leaves \<open>active \<le> limit\<close>.
\<close>

theorem budget_bounds:
  assumes "1 \<le> workers" and "step\<^sup>*\<^sup>* (initial workers assignment) (c, ts)"
  shows "0 \<le> active c \<and> active c \<le> workers
       \<and> 1 \<le> max_conc c \<and> max_conc c \<le> workers
       \<and> active c = holders ts
       \<and> (\<forall>c'. acquire_slot c = Some c' \<longrightarrow> active c' \<le> max_conc c')"
  using inv_reachable [OF assms] holders_nonneg [of ts]
  by (auto simp: budget_inv_def acquire_slot_def split: if_splits)

lemma two_workers_events:
  "map worker_events two_workers =
     [[Acquire, Urlopen, On429, Sleep 1, Release,
       Acquire, Urlopen, On429, Sleep 2, Release,
       Acquire, Urlopen, On429, Sleep 4, Release,
       Acquire, Urlopen, On429, Sleep 8, Release,
       Acquire, Urlopen, On429, Sleep 1, Release,
       Acquire, Urlopen, On429, Sleep 2, Release,
       Acquire, Urlopen, On429, Sleep 4, Release,
       Acquire, Urlopen, On429, Sleep 8, Release],
      [Acquire, Urlopen, Release, Acquire, Urlopen, Release]]"
  by (simp add: two_workers_def worker_events_def events_of_def enrich_row_def
        row_of_def cell_def strip_def is_space_def always_def
        fetch_info_def fetch_isin_fallback_def upt4 Let_def)

lemma two_workers_reach:
  "step\<^sup>*\<^sup>* (initial 2 two_workers)
     (\<lparr>max_conc = 1, active = 2\<rparr>,
      [drop 3 (worker_events (two_workers ! 0)), drop 1 (worker_events (two_workers ! 1))])"
proof -
  define r0 where "r0 = drop 3 (worker_events (two_workers ! 0))"
  define r1 where "r1 = drop 1 (worker_events (two_workers ! 1))"
  have ev: "map worker_events two_workers = [Acquire # Urlopen # On429 # r0, Acquire # r1]"
    using two_workers_events by (simp add: r0_def r1_def two_workers_def)
  have i: "initial 2 two_workers =
      (\<lparr>max_conc = 2, active = 0\<rparr>, [Acquire # Urlopen # On429 # r0, Acquire # r1])"
    by (simp add: initial_def ev)
  have s1: "step (\<lparr>max_conc = 2, active = 0\<rparr>, [Acquire # Urlopen # On429 # r0, Acquire # r1])
                 (\<lparr>max_conc = 2, active = 1\<rparr>, [Urlopen # On429 # r0, Acquire # r1])"
    using step.run [of 0 "[Acquire # Urlopen # On429 # r0, Acquire # r1]" Acquire
                       "Urlopen # On429 # r0" "\<lparr>max_conc = 2, active = 0\<rparr>"
                       "\<lparr>max_conc = 2, active = 1\<rparr>"]
    by (simp add: acquire_slot_def)
  have s2: "step (\<lparr>max_conc = 2, active = 1\<rparr>, [Urlopen # On429 # r0, Acquire # r1])
                 (\<lparr>max_conc = 2, active = 2\<rparr>, [Urlopen # On429 # r0, r1])"
    using step.run [of 1 "[Urlopen # On429 # r0, Acquire # r1]" Acquire r1
                       "\<lparr>max_conc = 2, active = 1\<rparr>" "\<lparr>max_conc = 2, active = 2\<rparr>"]
    by (simp add: acquire_slot_def)
  have s3: "step (\<lparr>max_conc = 2, active = 2\<rparr>, [Urlopen # On429 # r0, r1])
                 (\<lparr>max_conc = 2, active = 2\<rparr>, [On429 # r0, r1])"
    using step.run [of 0 "[Urlopen # On429 # r0, r1]" Urlopen "On429 # r0"
                       "\<lparr>max_conc = 2, active = 2\<rparr>" "\<lparr>max_conc = 2, active = 2\<rparr>"]
    by simp
  have s4: "step (\<lparr>max_conc = 2, active = 2\<rparr>, [On429 # r0, r1])
                 (\<lparr>max_conc = 1, active = 2\<rparr>, [r0, r1])"
    using step.run [of 0 "[On429 # r0, r1]" On429 r0
                       "\<lparr>max_conc = 2, active = 2\<rparr>" "\<lparr>max_conc = 1, active = 2\<rparr>"]
    by (simp add: on_429_def)
  have "step\<^sup>*\<^sup>* (initial 2 two_workers) (\<lparr>max_conc = 1, active = 2\<rparr>, [r0, r1])"
    unfolding i using s1 s2 s3 s4 by (meson rtranclp.rtrancl_into_rtrancl rtranclp.rtrancl_refl)
  then show ?thesis by (simp only: r0_def r1_def)
qed

text \<open>
  C2 as stated fails: with two workers both threads acquire a slot, the first gets a 429
  and \<^verbatim>\<open>_on_429\<close> lowers the limit to 1 while both slots are still held.
\<close>

theorem active_above_limit_after_429:
  "step\<^sup>*\<^sup>* (initial 2 two_workers)
     (\<lparr>max_conc = 1, active = 2\<rparr>,
      [drop 3 (worker_events (two_workers ! 0)), drop 1 (worker_events (two_workers ! 1))])
   \<and> \<not> active \<lparr>max_conc = 1, active = 2\<rparr> \<le> max_conc \<lparr>max_conc = 1, active = 2\<rparr>"
  using two_workers_reach by simp

theorem budget_bounds_witness:
  "step\<^sup>*\<^sup>* (initial 2 two_workers)
     (\<lparr>max_conc = 1, active = 2\<rparr>,
      [drop 3 (worker_events (two_workers ! 0)), drop 1 (worker_events (two_workers ! 1))])
   \<and> 0 \<le> active \<lparr>max_conc = 1, active = 2\<rparr>
   \<and> active \<lparr>max_conc = 1, active = 2\<rparr> \<le> 2
   \<and> 1 \<le> max_conc \<lparr>max_conc = 1, active = 2\<rparr>
   \<and> holders [drop 3 (worker_events (two_workers ! 0)),
               drop 1 (worker_events (two_workers ! 1))] = 2
   \<and> acquire_slot \<lparr>max_conc = 1, active = 2\<rparr> = None"
proof -
  have w: "(1::int) \<le> 2" by simp
  from budget_bounds [OF w two_workers_reach] two_workers_reach
  show ?thesis by (simp add: acquire_slot_def)
qed

end
